theory Spec2Isabelle
  imports Complex_Main
begin

section \<open>Numbers\<close>

text \<open>
  The component computes with JavaScript numbers, that is with IEEE 754 binary64. A finite
  number is modelled by the real it stands for, and each arithmetic operation of the source
  by the exact operation followed by \<open>fl\<close>, the rounding to the nearest double, a tie going
  to the even significand: for \<open>2^k \<le> |x| < 2^(k+1)\<close> the doubles around \<open>x\<close> are the
  multiples of \<open>2^(k - 52)\<close>, and below \<open>2^(- 1022)\<close> those of \<open>2^(- 1074)\<close> (the
  subnormal numbers). The exponent is not bounded above: a result beyond the largest
  double, for which JavaScript gives \<open>Infinity\<close>, is outside the model, and so are
  \<open>NaN\<close> and the sign of zero.
\<close>

definition roundHalfEven :: "real \<Rightarrow> int" where
  "roundHalfEven y =
     (let f = \<lfloor>y\<rfloor>
      in if y - of_int f < 1 / 2 then f
         else if 1 / 2 < y - of_int f then f + 1
         else if even f then f else f + 1)"

definition ulpExponent :: "real \<Rightarrow> int" where
  "ulpExponent x = max (\<lfloor>log 2 \<bar>x\<bar>\<rfloor> - 52) (- 1074)"

definition fl :: "real \<Rightarrow> real" where
  "fl x = (if x = 0 then 0
           else 2 powi ulpExponent x * of_int (roundHalfEven (x / 2 powi ulpExponent x)))"

definition isDouble :: "real \<Rightarrow> bool" where
  "isDouble x \<longleftrightarrow> fl x = x"

text \<open>The operators \<^verbatim>\<open>+\<close>, \<^verbatim>\<open>-\<close>, \<^verbatim>\<open>*\<close> and \<^verbatim>\<open>/\<close> on numbers.\<close>

definition fadd :: "real \<Rightarrow> real \<Rightarrow> real" where
  "fadd x y = fl (x + y)"

definition fsub :: "real \<Rightarrow> real \<Rightarrow> real" where
  "fsub x y = fl (x - y)"

definition fmul :: "real \<Rightarrow> real \<Rightarrow> real" where
  "fmul x y = fl (x * y)"

definition fdiv :: "real \<Rightarrow> real \<Rightarrow> real" where
  "fdiv x y = fl (x / y)"

text \<open>
  \<^verbatim>\<open>Math.round\<close> returns the nearest integer, a tie going to the larger one, that is
  the floor of \<open>x + 1/2\<close>, computed exactly. \<^verbatim>\<open>Math.PI\<close> is the double nearest to
  \<open>pi\<close>. \<^verbatim>\<open>Math.atan2(y, x)\<close> is the angle of the point \<open>(x, y)\<close>, between \<open>- pi\<close>
  and \<open>pi\<close>, taken as correctly rounded.
\<close>

definition Math_round :: "real \<Rightarrow> real" where
  "Math_round x = of_int \<lfloor>x + 1 / 2\<rfloor>"

definition Math_PI :: real where
  "Math_PI = fl pi"

definition Math_atan2 :: "real \<Rightarrow> real \<Rightarrow> real" where
  "Math_atan2 y x =
     fl (if x > 0 then arctan (y / x)
         else if x < 0 then (if y \<ge> 0 then arctan (y / x) + pi else arctan (y / x) - pi)
         else if y > 0 then pi / 2
         else if y < 0 then - (pi / 2)
         else 0)"

section \<open>Curve sampler\<close>

text \<open>\<^verbatim>\<open>function bezier(p0, p1, p2, t)\<close>, CurvedArrow.js lines 30 to 32.\<close>

definition bezier :: "real \<Rightarrow> real \<Rightarrow> real \<Rightarrow> real \<Rightarrow> real" where
  "bezier p0 p1 p2 t =
     fadd (fadd p1 (fmul (fmul (fsub 1 t) (fsub 1 t)) (fsub p0 p1)))
          (fmul (fmul t t) (fsub p2 p1))"

text \<open>
  \<^verbatim>\<open>function quadraticCurveMinMax(p0, p1, p2)\<close>, lines 45 to 57. The function is
  written in two parts: \<open>minMaxBeforeRound\<close> is the value of the variables \<open>min\<close> and
  \<open>max\<close> when control reaches the \<^verbatim>\<open>return\<close> of line 56 (lines 46 to 55), and
  \<open>quadraticCurveMinMax\<close> is the returned array, both variables rounded.
\<close>

definition minMaxBeforeRound :: "real \<Rightarrow> real \<Rightarrow> real \<Rightarrow> real \<times> real" where
  "minMaxBeforeRound p0 p1 p2 =
     (let mn = min p0 p2;
          mx = max p0 p2
      in if fadd (fsub p0 (fmul 2 p1)) p2 \<noteq> 0
         then (let t = fdiv (fsub p0 p1) (fadd (fsub p0 (fmul 2 p1)) p2)
               in if t > 0 \<and> t < 1
                  then (let p_middle = bezier p0 p1 p2 t
                        in (min mn p_middle, max mx p_middle))
                  else (mn, mx))
         else (mn, mx))"

definition quadraticCurveMinMax :: "real \<Rightarrow> real \<Rightarrow> real \<Rightarrow> real \<times> real" where
  "quadraticCurveMinMax p0 p1 p2 =
     (case minMaxBeforeRound p0 p1 p2 of
        (mn, mx) \<Rightarrow> (Math_round mn, Math_round mx))"

text \<open>
  The expression of line 31 read in exact arithmetic: the polynomial that \<open>bezier\<close>
  evaluates in doubles. It is the yardstick for the rounding error of \<open>bezier\<close> and of
  \<open>quadraticCurveMinMax\<close>, and no part of the component.
\<close>

definition exactCurve :: "real \<Rightarrow> real \<Rightarrow> real \<Rightarrow> real \<Rightarrow> real" where
  "exactCurve p0 p1 p2 t = p1 + (1 - t) * (1 - t) * (p0 - p1) + t * t * (p2 - p1)"

section \<open>The host: document, window and timers\<close>

text \<open>
  What the component reads from the browser. An element is known by the rectangle that
  \<^verbatim>\<open>getBoundingClientRect()\<close> returns for it; \<^verbatim>\<open>document.querySelector\<close> answers
  an element or \<^verbatim>\<open>null\<close> (\<open>None\<close>), the selectors being taken as well formed. The
  global \<^verbatim>\<open>window\<close> is a \<open>Window option\<close>: \<open>None\<close> where
  \<^verbatim>\<open>typeof window === "undefined"\<close>.
\<close>

record DOMRect =
  rect_left :: real
  rect_top :: real
  rect_width :: real
  rect_height :: real

record HTMLElement =
  getBoundingClientRect :: DOMRect

record Window =
  scrollX :: real
  scrollY :: real
  querySelector :: "string \<Rightarrow> HTMLElement option"

text \<open>
  The state that \<^verbatim>\<open>render\<close> and \<^verbatim>\<open>componentWillUnmount\<close> read and write: the
  field \<^verbatim>\<open>this.timer\<close> of the instance, and the host's table of pending timeouts, each a
  handle with the delay it was scheduled with. \<^verbatim>\<open>setTimeout\<close> hands out a fresh handle
  and appends the entry; \<^verbatim>\<open>clearTimeout\<close> removes the entry of a handle. A timeout
  that stays in the table is one whose callback (\<^verbatim>\<open>this.forceUpdate()\<close>) the host will run.
\<close>

record State =
  timer :: "nat option"
  nextHandle :: nat
  pending :: "(nat \<times> nat) list"

definition setTimeout :: "nat \<Rightarrow> State \<Rightarrow> nat \<times> State" where
  "setTimeout delay st =
     (nextHandle st,
      st\<lparr>nextHandle := Suc (nextHandle st),
         pending := pending st @ [(nextHandle st, delay)]\<rparr>)"

definition clearTimeout :: "nat \<Rightarrow> State \<Rightarrow> State" where
  "clearTimeout h st = st\<lparr>pending := filter (\<lambda>e. fst e \<noteq> h) (pending st)\<rparr>"

text \<open>
  The test \<^verbatim>\<open>if (this.timer)\<close>: \<^verbatim>\<open>null\<close> and the number 0 are falsy, every other
  handle is truthy.
\<close>

fun truthyTimer :: "nat option \<Rightarrow> bool" where
  "truthyTimer None = False"
| "truthyTimer (Some h) = (h \<noteq> 0)"

definition clearIfSet :: "State \<Rightarrow> State" where
  "clearIfSet st = (if truthyTimer (timer st) then clearTimeout (the (timer st)) st else st)"

section \<open>The component\<close>

text \<open>
  The props, lines 4 to 20. A prop that the caller leaves out is \<^verbatim>\<open>undefined\<close>
  (\<open>None\<close>), and the destructuring of lines 78 to 93 puts the default in its place. The
  prop \<^verbatim>\<open>style\<close> is copied into a local that nothing reads (line 159) and is left out.
\<close>

record Props =
  fromSelector :: "string option"
  toSelector :: "string option"
  fromOffsetX :: "real option"
  fromOffsetY :: "real option"
  toOffsetX :: "real option"
  toOffsetY :: "real option"
  middleX :: "real option"
  middleY :: "real option"
  width :: "real option"
  color :: "string option"
  hideIfFoundSelector :: "string option"
  debugLine :: "bool option"
  dynamicUpdate :: "bool option"
  zIndex :: "real option"

fun orDefault :: "'a \<Rightarrow> 'a option \<Rightarrow> 'a" where
  "orDefault d None = d"
| "orDefault d (Some v) = v"

text \<open>The object \<^verbatim>\<open>settings\<close> of lines 147 to 157; \<open>s_size\<close> is its field \<^verbatim>\<open>size\<close>.\<close>

record Settings =
  s_p0x :: real
  s_p0y :: real
  s_p1x :: real
  s_p1y :: real
  s_p2x :: real
  s_p2y :: real
  s_size :: real
  s_lineWidth :: real
  s_strokeStyle :: string

text \<open>
  What \<^verbatim>\<open>render\<close> returns when it draws: the \<^verbatim>\<open>canvas\<close> element of lines 162 to
  247, that is its \<^verbatim>\<open>ref\<close> callback with the variables the callback closes over.
\<close>

record CanvasJSX =
  settings :: Settings
  jsx_zIndex :: real
  jsx_debugLine :: bool

text \<open>The test \<^verbatim>\<open>if (hideIfFoundSelector)\<close>: undefined and the empty string are falsy.\<close>

fun truthyString :: "string option \<Rightarrow> bool" where
  "truthyString None = False"
| "truthyString (Some s) = (s \<noteq> [])"

text \<open>\<^verbatim>\<open>render()\<close>, lines 71 to 161: the element returned (\<open>None\<close> for \<^verbatim>\<open>null\<close>) and the new state.\<close>

definition render :: "Props \<Rightarrow> Window option \<Rightarrow> State \<Rightarrow> CanvasJSX option \<times> State" where
  "render props window st =
     (let st1 = st\<lparr>timer := None\<rparr>;
          fromSel = orDefault ''body'' (fromSelector props);
          toSel = orDefault fromSel (toSelector props);
          fromOffX = orDefault 0 (fromOffsetX props);
          fromOffY = orDefault 0 (fromOffsetY props);
          toOffX = orDefault 0 (toOffsetX props);
          toOffY = orDefault 0 (toOffsetY props);
          midX = orDefault 0 (middleX props);
          midY = orDefault 0 (middleY props);
          wid = orDefault 8 (width props);
          col = orDefault ''black'' (color props);
          dbg = orDefault False (debugLine props);
          dyn = orDefault False (dynamicUpdate props);
          zInd = orDefault 0 (zIndex props)
      in case window of
           None \<Rightarrow> (None, st1)
         | Some w \<Rightarrow>
            (let fromElement = querySelector w fromSel;
                 toElement = querySelector w toSel;
                 st2 = clearIfSet st1;
                 st3 = (if dyn \<or> fromElement = None \<or> toElement = None
                        then (case setTimeout 200 st2 of (h, st') \<Rightarrow> st'\<lparr>timer := Some h\<rparr>)
                        else st2)
             in case fromElement of
                  None \<Rightarrow> (None, st3)
                | Some fe \<Rightarrow>
                   (case toElement of
                      None \<Rightarrow> (None, st3)
                    | Some te \<Rightarrow>
                       if truthyString (hideIfFoundSelector props) \<and>
                          querySelector w (the (hideIfFoundSelector props)) \<noteq> None
                       then (None, st3)
                       else
                        (let rect = getBoundingClientRect fe;
                             p0x = fadd (fadd (rect_left rect) (fdiv (rect_width rect) 2)) fromOffX;
                             p0y = fadd (fsub (fadd (rect_top rect) (fdiv (rect_height rect) 2)) fromOffY)
                                     (scrollY w);
                             rect = getBoundingClientRect te;
                             p2x = fadd (fadd (rect_left rect) (fdiv (rect_width rect) 2)) toOffX;
                             p2y = fadd (fsub (fadd (rect_top rect) (fdiv (rect_height rect) 2)) toOffY)
                                     (scrollY w);
                             p1x = fadd (fdiv (fadd p0x p2x) 2) midX;
                             p1y = fsub (fdiv (fadd p0y p2y) 2) midY
                         in (Some \<lparr>settings =
                                     \<lparr>s_p0x = p0x, s_p0y = p0y, s_p1x = p1x, s_p1y = p1y,
                                      s_p2x = p2x, s_p2y = p2y, s_size = 30,
                                      s_lineWidth = wid, s_strokeStyle = col\<rparr>,
                                   jsx_zIndex = zInd, jsx_debugLine = dbg\<rparr>,
                             st3)))))"

text \<open>\<^verbatim>\<open>componentWillUnmount()\<close>, lines 67 to 69.\<close>

definition componentWillUnmount :: "State \<Rightarrow> State" where
  "componentWillUnmount st = clearIfSet st"

text \<open>
  The conversion from the viewport to the document as the specification describes it
  (section 3, and step 5 of the renderer): the vertical scroll position is added to the y
  coordinate. It is what the anchors of \<^verbatim>\<open>render\<close> are compared with.
\<close>

definition spec_toDocument :: "Window \<Rightarrow> real \<times> real \<Rightarrow> real \<times> real" where
  "spec_toDocument w p = (fst p, fadd (snd p) (scrollY w))"

section \<open>The drawing surface\<close>

text \<open>
  The 2D context of the canvas, as far as the callback uses it. The current transformation
  is the matrix \<open>(a, b, c, d, e, f)\<close> that sends \<open>(x, y)\<close> to
  \<open>(a x + c y + e, b x + d y + f)\<close>; \<^verbatim>\<open>translate\<close> and \<^verbatim>\<open>rotate\<close> multiply it on
  the right. A path is the list of its commands, each with the matrix that was current when
  the command was issued; \<^verbatim>\<open>stroke()\<close> paints the current path with the current style
  and leaves the path in place. The arguments that the callback passes are doubles,
  computed as the source computes them; what the surface does with them (the products of
  the matrices, the sines and cosines) is the host's and is taken exact.
\<close>

record Matrix =
  m_a :: real
  m_b :: real
  m_c :: real
  m_d :: real
  m_e :: real
  m_f :: real

definition identityMatrix :: Matrix where
  "identityMatrix = \<lparr>m_a = 1, m_b = 0, m_c = 0, m_d = 1, m_e = 0, m_f = 0\<rparr>"

definition translateMatrix :: "real \<Rightarrow> real \<Rightarrow> Matrix \<Rightarrow> Matrix" where
  "translateMatrix x y m =
     m\<lparr>m_e := m_a m * x + m_c m * y + m_e m, m_f := m_b m * x + m_d m * y + m_f m\<rparr>"

definition rotateMatrix :: "real \<Rightarrow> Matrix \<Rightarrow> Matrix" where
  "rotateMatrix angle m =
     m\<lparr>m_a := m_a m * cos angle + m_c m * sin angle,
       m_b := m_b m * cos angle + m_d m * sin angle,
       m_c := m_c m * cos angle - m_a m * sin angle,
       m_d := m_d m * cos angle - m_b m * sin angle\<rparr>"

definition applyMatrix :: "Matrix \<Rightarrow> real \<times> real \<Rightarrow> real \<times> real" where
  "applyMatrix m p =
     (m_a m * fst p + m_c m * snd p + m_e m, m_b m * fst p + m_d m * snd p + m_f m)"

datatype PathCmd =
    MoveTo real real
  | LineTo real real
  | QuadraticCurveTo real real real real
  | Arc real real real real real

record Stroke =
  stroke_path :: "(Matrix \<times> PathCmd) list"
  stroke_style :: string
  stroke_width :: real
  stroke_join :: string
  stroke_cap :: string

record Context2D =
  ctx_transform :: Matrix
  ctx_path :: "(Matrix \<times> PathCmd) list"
  ctx_strokeStyle :: string
  ctx_lineWidth :: real
  ctx_lineJoin :: string
  ctx_lineCap :: string
  ctx_painted :: "Stroke list"

definition defaultContext :: Context2D where
  "defaultContext =
     \<lparr>ctx_transform = identityMatrix, ctx_path = [], ctx_strokeStyle = ''#000000'',
      ctx_lineWidth = 1, ctx_lineJoin = ''miter'', ctx_lineCap = ''butt'', ctx_painted = []\<rparr>"

definition addToPath :: "PathCmd \<Rightarrow> Context2D \<Rightarrow> Context2D" where
  "addToPath cmd ctx = ctx\<lparr>ctx_path := ctx_path ctx @ [(ctx_transform ctx, cmd)]\<rparr>"

definition beginPath :: "Context2D \<Rightarrow> Context2D" where
  "beginPath ctx = ctx\<lparr>ctx_path := []\<rparr>"

definition stroke :: "Context2D \<Rightarrow> Context2D" where
  "stroke ctx =
     ctx\<lparr>ctx_painted := ctx_painted ctx @
        [\<lparr>stroke_path = ctx_path ctx, stroke_style = ctx_strokeStyle ctx,
          stroke_width = ctx_lineWidth ctx, stroke_join = ctx_lineJoin ctx,
          stroke_cap = ctx_lineCap ctx\<rparr>]\<rparr>"

definition translate :: "real \<Rightarrow> real \<Rightarrow> Context2D \<Rightarrow> Context2D" where
  "translate x y ctx = ctx\<lparr>ctx_transform := translateMatrix x y (ctx_transform ctx)\<rparr>"

definition rotate_ctx :: "real \<Rightarrow> Context2D \<Rightarrow> Context2D" where
  "rotate_ctx angle ctx = ctx\<lparr>ctx_transform := rotateMatrix angle (ctx_transform ctx)\<rparr>"

text \<open>
  The points of a path where a command ends, on the surface: the end of each command
  through the matrix it was issued under (the centre, for an arc).
\<close>

fun cmdPoint :: "Matrix \<times> PathCmd \<Rightarrow> real \<times> real" where
  "cmdPoint (m, MoveTo x y) = applyMatrix m (x, y)"
| "cmdPoint (m, LineTo x y) = applyMatrix m (x, y)"
| "cmdPoint (m, QuadraticCurveTo cx cy x y) = applyMatrix m (x, y)"
| "cmdPoint (m, Arc x y r a0 a1) = applyMatrix m (x, y)"

definition pathPoints :: "(Matrix \<times> PathCmd) list \<Rightarrow> (real \<times> real) list" where
  "pathPoints p = map cmdPoint p"

text \<open>
  The canvas element, as far as the callback writes it: the style properties (\<open>top\<close> and
  \<open>left\<close> as the number of pixels), the size, and the context that
  \<^verbatim>\<open>getContext("2d")\<close> returns. Writing \<^verbatim>\<open>canvas.width\<close> or \<^verbatim>\<open>canvas.height\<close>
  puts the context back in its default state. The size is an \<^verbatim>\<open>unsigned long\<close>:
  the number assigned is truncated towards zero and reduced modulo \<open>2^32\<close>, and a result
  above \<open>2^31 - 1\<close> is replaced by the default of the attribute, 300 for the width and 150
  for the height.
\<close>

definition toCanvasSize :: "nat \<Rightarrow> real \<Rightarrow> nat" where
  "toCanvasSize dflt v =
     (let n = (if 0 \<le> v then \<lfloor>v\<rfloor> else \<lceil>v\<rceil>) mod 2 ^ 32
      in if n \<le> 2147483647 then nat n else dflt)"

record HTMLCanvasElement =
  style_position :: string
  style_pointerEvents :: string
  style_top :: real
  style_left :: real
  style_zIndex :: "real option"
  canvas_width :: nat
  canvas_height :: nat
  canvas_context :: Context2D

text \<open>
  The arrow head, lines 229 to 245, for the heading \<open>angle\<close> that line 228 computes.
\<close>

definition arrowHeadAt :: "real \<Rightarrow> real \<Rightarrow> real \<Rightarrow> real \<Rightarrow> Context2D \<Rightarrow> Context2D" where
  "arrowHeadAt angle siz p2x p2y ctx0 =
     (let ctx = translate p2x p2y ctx0;
          ctx = rotate_ctx (fadd angle 1) ctx;
          ctx = beginPath ctx;
          ctx = addToPath (MoveTo 0 siz) ctx;
          ctx = addToPath (LineTo 0 0) ctx;
          ctx = stroke ctx;
          ctx = rotate_ctx (- 2) ctx;
          ctx = addToPath (LineTo 0 (- siz)) ctx;
          ctx = stroke ctx;
          ctx = rotate_ctx (fsub 1 angle) ctx;
          ctx = translate (- p2x) (- p2y) ctx
      in ctx)"

text \<open>The debug circles, lines 206 to 213.\<close>

definition debugCircles ::
  "real \<Rightarrow> real \<Rightarrow> real \<Rightarrow> real \<Rightarrow> real \<Rightarrow> real \<Rightarrow> Context2D \<Rightarrow> Context2D" where
  "debugCircles p0x p0y p1x p1y p2x p2y ctx0 =
     (let ctx = addToPath (Arc p0x p0y 10 0 (fmul 2 Math_PI)) ctx0;
          ctx = stroke ctx;
          ctx = addToPath (Arc p1x p1y 10 0 (fmul 2 Math_PI)) ctx;
          ctx = stroke ctx;
          ctx = addToPath (Arc p2x p2y 10 0 (fmul 2 Math_PI)) ctx;
          ctx = stroke ctx
      in ctx)"

text \<open>
  The \<^verbatim>\<open>ref\<close> callback, lines 163 to 246, called with the canvas element or with
  \<^verbatim>\<open>null\<close>; it answers the element as it has left it.
\<close>

definition canvasRef :: "CanvasJSX \<Rightarrow> HTMLCanvasElement option \<Rightarrow> HTMLCanvasElement option" where
  "canvasRef jsx c =
     (case c of
        None \<Rightarrow> None
      | Some canvas \<Rightarrow>
         (let st = settings jsx;
              x_min_max = quadraticCurveMinMax (s_p0x st) (s_p1x st) (s_p2x st);
              y_min_max = quadraticCurveMinMax (s_p0y st) (s_p1y st) (s_p2y st);
              padding = fsub (s_size st) (s_lineWidth st);
              x_min = fsub (fst x_min_max) padding;
              x_max = fadd (snd x_min_max) padding;
              y_min = fsub (fst y_min_max) padding;
              y_max = fadd (snd y_min_max) padding;
              p0x = fsub (s_p0x st) x_min;
              p0y = fsub (s_p0y st) y_min;
              p1x = fsub (s_p1x st) x_min;
              p1y = fsub (s_p1y st) y_min;
              p2x = fsub (s_p2x st) x_min;
              p2y = fsub (s_p2y st) y_min;
              canvas = canvas\<lparr>style_position := ''absolute''\<rparr>;
              canvas = canvas\<lparr>style_pointerEvents := ''none''\<rparr>;
              canvas = canvas\<lparr>style_top := y_min\<rparr>;
              canvas = canvas\<lparr>style_left := x_min\<rparr>;
              canvas = canvas\<lparr>canvas_width := toCanvasSize 300 (fsub x_max x_min), canvas_context := defaultContext\<rparr>;
              canvas = canvas\<lparr>canvas_height := toCanvasSize 150 (fsub y_max y_min), canvas_context := defaultContext\<rparr>;
              canvas = (if jsx_zIndex jsx \<noteq> 0
                        then canvas\<lparr>style_zIndex := Some (jsx_zIndex jsx)\<rparr> else canvas);
              ctx = canvas_context canvas;
              ctx = (if jsx_debugLine jsx then debugCircles p0x p0y p1x p1y p2x p2y ctx else ctx);
              ctx = ctx\<lparr>ctx_strokeStyle := s_strokeStyle st\<rparr>;
              ctx = ctx\<lparr>ctx_lineWidth := s_lineWidth st\<rparr>;
              ctx = ctx\<lparr>ctx_lineJoin := ''round''\<rparr>;
              ctx = ctx\<lparr>ctx_lineCap := ''round''\<rparr>;
              ctx = beginPath ctx;
              ctx = addToPath (MoveTo p0x p0y) ctx;
              ctx = addToPath (QuadraticCurveTo p1x p1y p2x p2y) ctx;
              ctx = stroke ctx;
              angle = Math_atan2 (fsub p2y p1y) (fsub p2x p1x);
              ctx = arrowHeadAt angle (s_size st) p2x p2y ctx
          in Some (canvas\<lparr>canvas_context := ctx\<rparr>)))"

section \<open>Example inputs\<close>

text \<open>
  A freshly mounted instance, the props of \<^verbatim>\<open><CurvedArrow />\<close> and a few pages, for the
  concrete runs further down. \<open>boxElement l t w h\<close> is an element whose bounding rectangle
  has the given left, top, width and height.
\<close>

definition initialState :: State where
  "initialState = \<lparr>timer = None, nextHandle = 1, pending = []\<rparr>"

definition defaultProps :: Props where
  "defaultProps =
     \<lparr>fromSelector = None, toSelector = None, fromOffsetX = None, fromOffsetY = None,
      toOffsetX = None, toOffsetY = None, middleX = None, middleY = None, width = None,
      color = None, hideIfFoundSelector = None, debugLine = None, dynamicUpdate = None,
      zIndex = None\<rparr>"

definition twoAnchorProps :: Props where
  "twoAnchorProps = defaultProps\<lparr>fromSelector := Some ''#a'', toSelector := Some ''#b''\<rparr>"

definition thickProps :: Props where
  "thickProps = twoAnchorProps\<lparr>width := Some 16\<rparr>"

definition boxElement :: "real \<Rightarrow> real \<Rightarrow> real \<Rightarrow> real \<Rightarrow> HTMLElement" where
  "boxElement l t w h =
     \<lparr>getBoundingClientRect = \<lparr>rect_left = l, rect_top = t, rect_width = w, rect_height = h\<rparr>\<rparr>"

definition emptyPage :: Window where
  "emptyPage = \<lparr>scrollX = 0, scrollY = 0, querySelector = (\<lambda>s. None)\<rparr>"

definition bodyPage :: Window where
  "bodyPage =
     \<lparr>scrollX = 0, scrollY = 0,
      querySelector = (\<lambda>s. if s = ''body'' then Some (boxElement 0 0 0 0) else None)\<rparr>"

definition twoAnchorPage :: Window where
  "twoAnchorPage =
     \<lparr>scrollX = 0, scrollY = 20,
      querySelector = (\<lambda>s. if s = ''#a'' then Some (boxElement 90 60 20 40)
                           else if s = ''#b'' then Some (boxElement 280 70 40 20)
                           else None)\<rparr>"

definition blankCanvas :: HTMLCanvasElement where
  "blankCanvas =
     \<lparr>style_position = [], style_pointerEvents = [], style_top = 0, style_left = 0,
      style_zIndex = None, canvas_width = 300, canvas_height = 150,
      canvas_context = defaultContext\<rparr>"

definition jsxOf :: "real \<Rightarrow> real \<Rightarrow> real \<Rightarrow> real \<Rightarrow> real \<Rightarrow> real \<Rightarrow> real \<Rightarrow> CanvasJSX" where
  "jsxOf x0 y0 x1 y1 x2 y2 lw =
     \<lparr>settings = \<lparr>s_p0x = x0, s_p0y = y0, s_p1x = x1, s_p1y = y1, s_p2x = x2, s_p2y = y2,
                   s_size = 30, s_lineWidth = lw, s_strokeStyle = ''black''\<rparr>,
      jsx_zIndex = 0, jsx_debugLine = False\<rparr>"

section \<open>Properties of the numbers\<close>

lemma roundHalfEven_cases:
  "roundHalfEven y = \<lfloor>y\<rfloor> \<and> y - of_int \<lfloor>y\<rfloor> \<le> 1 / 2 \<or>
   roundHalfEven y = \<lfloor>y\<rfloor> + 1 \<and> 1 / 2 \<le> y - of_int \<lfloor>y\<rfloor>"
  unfolding roundHalfEven_def Let_def by (simp add: not_less)

lemma roundHalfEven_error: "\<bar>of_int (roundHalfEven y) - y\<bar> \<le> 1 / 2"
proof -
  have a: "of_int \<lfloor>y\<rfloor> \<le> y" and b: "y < of_int \<lfloor>y\<rfloor> + 1" by linarith+
  from roundHalfEven_cases [of y] show ?thesis
  proof
    assume "roundHalfEven y = \<lfloor>y\<rfloor> \<and> y - of_int \<lfloor>y\<rfloor> \<le> 1 / 2"
    then show ?thesis using a by simp
  next
    assume "roundHalfEven y = \<lfloor>y\<rfloor> + 1 \<and> 1 / 2 \<le> y - of_int \<lfloor>y\<rfloor>"
    then show ?thesis using b by simp
  qed
qed

lemma roundHalfEven_of_int [simp]: "roundHalfEven (of_int n) = n"
  by (simp add: roundHalfEven_def)

lemma roundHalfEven_minus: "roundHalfEven (- y) = - roundHalfEven y"
proof (cases "y = of_int \<lfloor>y\<rfloor>")
  case True
  then obtain n where n: "y = of_int n" by blast
  have "roundHalfEven (of_int (- n)) = - n" by (rule roundHalfEven_of_int)
  then show ?thesis using n by simp
next
  case False
  have lo: "of_int \<lfloor>y\<rfloor> < y" using False of_int_floor_le [of y] by linarith
  have hi: "y < of_int \<lfloor>y\<rfloor> + 1" by linarith
  have f: "\<lfloor>- y\<rfloor> = - \<lfloor>y\<rfloor> - 1"
  proof (rule floor_unique)
    show "of_int (- \<lfloor>y\<rfloor> - 1) \<le> - y"
      unfolding of_int_diff of_int_minus of_int_1 using hi by linarith
    show "- y < of_int (- \<lfloor>y\<rfloor> - 1) + 1"
      unfolding of_int_diff of_int_minus of_int_1 using lo by linarith
  qed
  have ev: "even (- \<lfloor>y\<rfloor> - 1) \<longleftrightarrow> odd \<lfloor>y\<rfloor>" by simp
  consider "y - of_int \<lfloor>y\<rfloor> < 1 / 2" | "1 / 2 < y - of_int \<lfloor>y\<rfloor>" | "y - of_int \<lfloor>y\<rfloor> = 1 / 2"
    by linarith
  then show ?thesis
  proof cases
    case 1
    then have "roundHalfEven y = \<lfloor>y\<rfloor>" by (simp add: roundHalfEven_def)
    moreover have "roundHalfEven (- y) = - \<lfloor>y\<rfloor>"
      using 1 by (simp add: roundHalfEven_def f)
    ultimately show ?thesis by simp
  next
    case 2
    then have "roundHalfEven y = \<lfloor>y\<rfloor> + 1" by (simp add: roundHalfEven_def)
    moreover have "roundHalfEven (- y) = - \<lfloor>y\<rfloor> - 1"
      using 2 by (simp add: roundHalfEven_def f)
    ultimately show ?thesis by simp
  next
    case 3
    then have a: "roundHalfEven y = (if even \<lfloor>y\<rfloor> then \<lfloor>y\<rfloor> else \<lfloor>y\<rfloor> + 1)"
      by (simp add: roundHalfEven_def)
    have "- y - of_int (- \<lfloor>y\<rfloor> - 1) = 1 / 2" using 3 by simp
    then have b: "roundHalfEven (- y) = (if odd \<lfloor>y\<rfloor> then - \<lfloor>y\<rfloor> - 1 else - \<lfloor>y\<rfloor>)"
      unfolding roundHalfEven_def Let_def f by (simp add: ev)
    show ?thesis unfolding a b by simp
  qed
qed

lemma log2_bracket:
  assumes "x \<noteq> 0"
  shows "2 powi \<lfloor>log 2 \<bar>x\<bar>\<rfloor> \<le> \<bar>x\<bar>" and "\<bar>x\<bar> < 2 powi (\<lfloor>log 2 \<bar>x\<bar>\<rfloor> + 1)"
proof -
  have pos: "0 < \<bar>x\<bar>" using assms by simp
  have "2 powr real_of_int \<lfloor>log 2 \<bar>x\<bar>\<rfloor> \<le> \<bar>x\<bar> \<and> \<bar>x\<bar> < 2 powr real_of_int (\<lfloor>log 2 \<bar>x\<bar>\<rfloor> + 1)"
    using floor_log_eq_powr_iff [OF pos, of 2 "\<lfloor>log 2 \<bar>x\<bar>\<rfloor>"] by simp
  moreover have "(2::real) powr real_of_int \<lfloor>log 2 \<bar>x\<bar>\<rfloor> = 2 powi \<lfloor>log 2 \<bar>x\<bar>\<rfloor>"
    by (rule powr_real_of_int') simp_all
  moreover have "(2::real) powr real_of_int (\<lfloor>log 2 \<bar>x\<bar>\<rfloor> + 1) = 2 powi (\<lfloor>log 2 \<bar>x\<bar>\<rfloor> + 1)"
    by (rule powr_real_of_int') simp_all
  ultimately show "2 powi \<lfloor>log 2 \<bar>x\<bar>\<rfloor> \<le> \<bar>x\<bar>" and "\<bar>x\<bar> < 2 powi (\<lfloor>log 2 \<bar>x\<bar>\<rfloor> + 1)"
    by simp_all
qed

lemma log2_floor_eqI:
  assumes "2 powi k \<le> \<bar>x\<bar>" "\<bar>x\<bar> < 2 powi (k + 1)"
  shows "\<lfloor>log 2 \<bar>x\<bar>\<rfloor> = k"
proof -
  have pos: "0 < \<bar>x\<bar>" using assms(1) zero_less_power_int [of "2::real" k] by linarith
  have a: "(2::real) powr real_of_int k = 2 powi k" by (rule powr_real_of_int') simp_all
  have b: "(2::real) powr real_of_int (k + 1) = 2 powi (k + 1)" by (rule powr_real_of_int') simp_all
  have "2 powr real_of_int k \<le> \<bar>x\<bar> \<and> \<bar>x\<bar> < 2 powr real_of_int (k + 1)"
    unfolding a b using assms by simp
  then show ?thesis using floor_log_eq_powr_iff [OF pos, of 2 k] by simp
qed

lemma ulpExponent_lower: "- 1074 \<le> ulpExponent x" and ulpExponent_log: "\<lfloor>log 2 \<bar>x\<bar>\<rfloor> - 52 \<le> ulpExponent x"
  by (simp_all add: ulpExponent_def)

lemma ulpExponent_minus: "ulpExponent (- x) = ulpExponent x"
  by (simp add: ulpExponent_def)

lemma fl_zero [simp]: "fl 0 = 0"
  by (simp add: fl_def)

lemma fl_minus: "fl (- x) = - fl x"
  by (simp add: fl_def ulpExponent_minus roundHalfEven_minus)

lemma fl_error_ulp: "\<bar>fl x - x\<bar> \<le> 2 powi ulpExponent x / 2"
proof (cases "x = 0")
  case True
  then show ?thesis by simp
next
  case False
  let ?p = "(2::real) powi ulpExponent x"
  have p: "0 < ?p" by simp
  have "fl x - x = ?p * (of_int (roundHalfEven (x / ?p)) - x / ?p)"
    using False p by (simp add: fl_def algebra_simps)
  then have "\<bar>fl x - x\<bar> = ?p * \<bar>of_int (roundHalfEven (x / ?p)) - x / ?p\<bar>"
    using p by (simp add: abs_mult)
  also have "\<dots> \<le> ?p * (1 / 2)"
    using p roundHalfEven_error [of "x / ?p"] by (intro mult_left_mono) simp_all
  finally show ?thesis by simp
qed

lemma fl_error: "\<bar>fl x - x\<bar> \<le> \<bar>x\<bar> / 2 ^ 53 + 1 / 2 ^ 1075"
proof (cases "x = 0")
  case True
  then show ?thesis by simp
next
  case False
  let ?k = "\<lfloor>log 2 \<bar>x\<bar>\<rfloor>"
  define a where "a = \<bar>x\<bar> / 2 ^ 53"
  define b where "b = (1::real) / 2 ^ 1075"
  have a0: "0 \<le> a" by (simp add: a_def)
  have b0: "0 \<le> b" by (simp add: b_def)
  have "2 powi ulpExponent x / 2 \<le> a + b"
  proof (cases "- 1074 \<le> ?k - 52")
    case True
    then have q: "ulpExponent x = ?k - 52" by (simp add: ulpExponent_def)
    have "(2::real) powi (?k - 52) = 2 powi ?k / 2 powi 52"
      by (rule power_int_diff) simp
    then have "(2::real) powi ulpExponent x / 2 = 2 powi ?k / 2 ^ 53"
      unfolding q by simp
    also have "\<dots> \<le> a"
      unfolding a_def using log2_bracket(1) [OF False] by (simp add: divide_right_mono)
    finally show ?thesis using b0 by linarith
  next
    case False
    then have q: "ulpExponent x = - 1074" by (simp add: ulpExponent_def)
    have "(2::real) powi (- 1074) = inverse (2 powi 1074)" by (rule power_int_minus)
    also have "\<dots> = 1 / 2 ^ 1074" by (simp only: power_int_numeral inverse_eq_divide)
    finally have "(2::real) powi ulpExponent x / 2 = 1 / 2 ^ 1074 / 2" unfolding q by simp
    also have "\<dots> = 1 / (2 ^ 1074 * 2)" by (simp only: divide_divide_eq_left)
    also have "(2::real) ^ 1074 * 2 = 2 ^ Suc 1074" by (simp only: power_Suc2)
    also have "Suc 1074 = 1075" by simp
    finally have "(2::real) powi ulpExponent x / 2 = b" unfolding b_def .
    then show ?thesis using a0 by linarith
  qed
  then have "\<bar>fl x - x\<bar> \<le> a + b" using fl_error_ulp [of x] by linarith
  then show ?thesis unfolding a_def b_def .
qed

lemma power_int_two_nonneg_int: "0 \<le> j \<Longrightarrow> (2::real) powi j = of_int (2 ^ nat j)"
  by (simp add: power_int_def)

lemma fl_exact_lt:
  assumes x: "x = of_int m * 2 powi e" and m: "\<bar>m\<bar> < 2 ^ 53" and e: "- 1074 \<le> e"
  shows "fl x = x"
proof (cases "x = 0")
  case True
  then show ?thesis by simp
next
  case False
  let ?k = "\<lfloor>log 2 \<bar>x\<bar>\<rfloor>"
  let ?q = "ulpExponent x"
  have "\<bar>x\<bar> = of_int \<bar>m\<bar> * 2 powi e" unfolding x by (simp add: abs_mult)
  also have "\<dots> < 2 ^ 53 * 2 powi e"
  proof (rule mult_strict_right_mono)
    have "real_of_int \<bar>m\<bar> < real_of_int (2 ^ 53)" using m by (simp only: of_int_less_iff)
    then show "real_of_int \<bar>m\<bar> < 2 ^ 53" by simp
  qed simp
  also have "\<dots> = 2 powi (53 + e)"
    by (subst power_int_add) simp_all
  finally have up: "\<bar>x\<bar> < 2 powi (53 + e)" .
  have "?k < 53 + e"
  proof (rule ccontr)
    assume "\<not> ?k < 53 + e"
    then have "(2::real) powi (53 + e) \<le> 2 powi ?k" by (intro power_int_increasing) simp_all
    then show False using up log2_bracket(1) [OF False] by linarith
  qed
  then have qe: "?q \<le> e" using e by (simp add: ulpExponent_def)
  have d: "(2::real) powi (e - ?q) = 2 powi e / 2 powi ?q"
    by (rule power_int_diff) simp
  have "x / 2 powi ?q = of_int m * 2 powi (e - ?q)"
    unfolding d by (simp add: x)
  also have "\<dots> = of_int (m * 2 ^ nat (e - ?q))"
    using qe by (simp add: power_int_two_nonneg_int)
  finally have r: "of_int (roundHalfEven (x / 2 powi ?q)) = x / 2 powi ?q"
    by (simp only: roundHalfEven_of_int)
  show ?thesis using False unfolding fl_def r by simp
qed

lemma fl_exact:
  assumes x: "x = of_int m * 2 powi e" and m: "\<bar>m\<bar> \<le> 2 ^ 53" and e: "- 1074 \<le> e"
  shows "fl x = x"
proof (cases "\<bar>m\<bar> < 2 ^ 53")
  case True
  then show ?thesis using fl_exact_lt [OF x _ e] by simp
next
  case False
  then have "\<bar>m\<bar> = 2 ^ 53" using m by simp
  then consider "m = 2 ^ 53" | "m = - (2 ^ 53)" by linarith
  then obtain s :: int where s: "\<bar>s\<bar> = 1" "m = s * 2 ^ 53"
    by cases (auto intro: that [of 1] that [of "- 1"])
  have "x = of_int s * (2 ^ 53 * 2 powi e)" unfolding x s by simp
  also have "2 ^ 53 * (2::real) powi e = 2 powi (53 + e)"
    by (subst power_int_add) simp_all
  finally have "x = of_int s * 2 powi (53 + e)" .
  then show ?thesis
    by (rule fl_exact_lt) (use s e in simp_all)
qed

lemma roundHalfEven_bound:
  assumes "\<bar>y\<bar> \<le> of_int N"
  shows "\<bar>roundHalfEven y\<bar> \<le> N"
proof -
  have lo: "- N \<le> \<lfloor>y\<rfloor>" using assms by (simp add: le_floor_iff abs_le_iff)
  have fl_le: "of_int \<lfloor>y\<rfloor> \<le> y" by simp
  have up: "y \<le> of_int N" using assms by (simp add: abs_le_iff)
  from roundHalfEven_cases [of y] show ?thesis
  proof
    assume a: "roundHalfEven y = \<lfloor>y\<rfloor> \<and> y - of_int \<lfloor>y\<rfloor> \<le> 1 / 2"
    have "real_of_int \<lfloor>y\<rfloor> \<le> real_of_int N" using fl_le up by linarith
    then have "\<lfloor>y\<rfloor> \<le> N" by (simp only: of_int_le_iff)
    then show ?thesis using a lo by simp
  next
    assume a: "roundHalfEven y = \<lfloor>y\<rfloor> + 1 \<and> 1 / 2 \<le> y - of_int \<lfloor>y\<rfloor>"
    then have "real_of_int \<lfloor>y\<rfloor> < real_of_int N" using up by linarith
    then have "\<lfloor>y\<rfloor> < N" by (simp only: of_int_less_iff)
    then show ?thesis using a lo by simp
  qed
qed

lemma fl_representation:
  "\<exists>m e. fl x = of_int m * 2 powi e \<and> \<bar>m\<bar> \<le> 2 ^ 53 \<and> - 1074 \<le> e"
proof (cases "x = 0")
  case True
  have "fl x = of_int 0 * 2 powi 0" using True by simp
  then show ?thesis by (intro exI [of _ 0] conjI) simp_all
next
  case False
  let ?k = "\<lfloor>log 2 \<bar>x\<bar>\<rfloor>"
  let ?q = "ulpExponent x"
  have q: "0 < (2::real) powi ?q" by simp
  have "?k + 1 - ?q \<le> 53" using ulpExponent_log [of x] by linarith
  then have "(2::real) powi (?k + 1 - ?q) \<le> 2 powi 53" by (intro power_int_increasing) simp_all
  moreover have "(2::real) powi (?k + 1 - ?q) = 2 powi (?k + 1) / 2 powi ?q"
    by (rule power_int_diff) simp
  ultimately have "2 powi (?k + 1) / 2 powi ?q \<le> (2::real) ^ 53" by simp
  moreover have "\<bar>x\<bar> / 2 powi ?q < 2 powi (?k + 1) / 2 powi ?q"
    using log2_bracket(2) [OF False] q by (simp add: divide_strict_right_mono)
  ultimately have "\<bar>x / 2 powi ?q\<bar> \<le> 2 ^ 53" using q by (simp add: abs_divide)
  then have "\<bar>x / 2 powi ?q\<bar> \<le> real_of_int (2 ^ 53)" by simp
  then have "\<bar>roundHalfEven (x / 2 powi ?q)\<bar> \<le> 2 ^ 53" by (rule roundHalfEven_bound)
  moreover have "fl x = of_int (roundHalfEven (x / 2 powi ?q)) * 2 powi ?q"
    using False by (simp add: fl_def)
  ultimately show ?thesis using ulpExponent_lower [of x] by blast
qed

lemma fl_idem [simp]: "fl (fl x) = fl x"
proof -
  from fl_representation [of x] obtain m e where
    "fl x = of_int m * 2 powi e" "\<bar>m\<bar> \<le> 2 ^ 53" "- 1074 \<le> e" by blast
  then show ?thesis by (rule fl_exact)
qed

lemma isDouble_fl [simp]: "isDouble (fl x)"
  by (simp add: isDouble_def)

lemma isDouble_minus: "isDouble x \<Longrightarrow> isDouble (- x)"
  by (simp add: isDouble_def fl_minus)

lemma isDouble_twice: "isDouble x \<Longrightarrow> isDouble (2 * x)"
proof -
  assume "isDouble x"
  then have x: "fl x = x" by (simp add: isDouble_def)
  from fl_representation [of x] obtain m e where
    r: "x = of_int m * 2 powi e" "\<bar>m\<bar> \<le> 2 ^ 53" "- 1074 \<le> e" unfolding x by blast
  have "(2::real) powi (e + 1) = 2 powi e * 2 powi 1" by (rule power_int_add) simp
  then have "2 * x = of_int m * 2 powi (e + 1)" unfolding r(1) by simp
  then have "fl (2 * x) = 2 * x" by (rule fl_exact) (use r in simp_all)
  then show ?thesis by (simp add: isDouble_def)
qed

lemma fl_of_int: "\<bar>n\<bar> \<le> 2 ^ 53 \<Longrightarrow> fl (of_int n) = of_int n"
  by (rule fl_exact [where m = n and e = 0]) simp_all

lemma fl_dyadic: "\<bar>n\<bar> \<le> 2 ^ 53 \<Longrightarrow> j \<le> 1074 \<Longrightarrow> fl (of_int n / 2 ^ j) = of_int n / 2 ^ j"
  by (rule fl_exact [where m = n and e = "- int j"]) (simp_all add: power_int_minus field_simps)

lemma fl_numeral [simp]: "(numeral k :: int) \<le> 2 ^ 53 \<Longrightarrow> fl (numeral k) = numeral k"
  using fl_of_int [of "numeral k"] by simp

lemma fl_neg_numeral [simp]: "(numeral k :: int) \<le> 2 ^ 53 \<Longrightarrow> fl (- numeral k) = - numeral k"
  by (simp add: fl_minus)

lemma fl_one [simp]: "fl 1 = 1"
  using fl_of_int [of 1] by simp

lemma fl_error_unit: "\<bar>fl x - x\<bar> \<le> (\<bar>x\<bar> + 1) / 2 ^ 53"
proof -
  have "(1::real) / 2 ^ 1075 \<le> 1 / 2 ^ 53"
    by (intro divide_left_mono power_increasing) simp_all
  then show ?thesis using fl_error [of x] by (simp add: add_divide_distrib)
qed

lemma fl_eval:
  assumes "2 powi k \<le> \<bar>x\<bar>" "\<bar>x\<bar> < 2 powi (k + 1)"
  shows "fl x = 2 powi max (k - 52) (- 1074) * of_int (roundHalfEven (x / 2 powi max (k - 52) (- 1074)))"
proof -
  have "0 < (2::real) powi k" by simp
  then have "0 < \<bar>x\<bar>" using assms(1) by linarith
  then have "x \<noteq> 0" by simp
  moreover have "ulpExponent x = max (k - 52) (- 1074)"
    unfolding ulpExponent_def log2_floor_eqI [OF assms] ..
  ultimately show ?thesis by (simp add: fl_def)
qed

lemma isDouble_of_int: "\<bar>n\<bar> \<le> 2 ^ 53 \<Longrightarrow> isDouble (of_int n)"
  by (simp add: isDouble_def fl_of_int)

lemma isDouble_dyadic: "\<bar>n\<bar> \<le> 2 ^ 53 \<Longrightarrow> j \<le> 1074 \<Longrightarrow> isDouble (of_int n / 2 ^ j)"
  by (simp add: isDouble_def fl_dyadic)

lemma isDouble_zero [simp]: "isDouble 0" and isDouble_one [simp]: "isDouble 1"
  by (simp_all add: isDouble_def)

lemma isDouble_numeral [simp]: "(numeral k :: int) \<le> 2 ^ 53 \<Longrightarrow> isDouble (numeral k)"
  by (simp add: isDouble_def)

lemma fl_neg_one [simp]: "fl (- 1) = - 1"
  by (simp add: fl_minus)

section \<open>Properties of the curve sampler\<close>

lemma Math_round_upper: "Math_round x \<le> x + 1 / 2"
  unfolding Math_round_def by linarith

lemma Math_round_lower: "x - 1 / 2 < Math_round x"
  unfolding Math_round_def by linarith

lemma Math_round_mono: "x \<le> y \<Longrightarrow> Math_round x \<le> Math_round y"
  unfolding Math_round_def by (simp add: floor_mono)

lemma Math_round_Ints: "Math_round x \<in> \<int>"
  unfolding Math_round_def by simp

lemma bezier_at_0: "bezier p0 p1 p2 0 = fadd p1 (fsub p0 p1)"
  by (simp add: bezier_def fadd_def fsub_def fmul_def)

lemma bezier_at_1: "bezier p0 p1 p2 1 = fadd (fl p1) (fsub p2 p1)"
  by (simp add: bezier_def fadd_def fsub_def fmul_def)

lemma round_trip_error:
  "\<bar>fadd b (fsub a b) - a\<bar> \<le> (2 * \<bar>a - b\<bar> + \<bar>a\<bar> + 3) / 2 ^ 53"
proof -
  define u where "u = (1::real) / 2 ^ 53"
  define d where "d = fl (a - b)"
  have u0: "0 \<le> u" and u1: "u \<le> 1" by (simp_all add: u_def)
  have e1: "\<bar>d - (a - b)\<bar> \<le> (\<bar>a - b\<bar> + 1) * u"
    unfolding d_def u_def using fl_error_unit [of "a - b"] by simp
  have "(\<bar>a - b\<bar> + 1) * u \<le> \<bar>a - b\<bar> + 1"
    using mult_left_mono [OF u1, of "\<bar>a - b\<bar> + 1"] by simp
  then have e1': "\<bar>d - (a - b)\<bar> \<le> \<bar>a - b\<bar> + 1" using e1 by linarith
  have e2: "\<bar>fl (b + d) - (b + d)\<bar> \<le> (\<bar>b + d\<bar> + 1) * u"
    unfolding u_def using fl_error_unit [of "b + d"] by simp
  have "\<bar>b + d\<bar> \<le> \<bar>a\<bar> + \<bar>a - b\<bar> + 1" using e1' by linarith
  then have "(\<bar>b + d\<bar> + 1) * u \<le> (\<bar>a\<bar> + \<bar>a - b\<bar> + 2) * u"
    using u0 by (intro mult_right_mono) simp_all
  then have e2': "\<bar>fl (b + d) - (b + d)\<bar> \<le> (\<bar>a\<bar> + \<bar>a - b\<bar> + 2) * u" using e2 by linarith
  have "\<bar>fl (b + d) - a\<bar> \<le> \<bar>fl (b + d) - (b + d)\<bar> + \<bar>d - (a - b)\<bar>" by linarith
  also have "\<dots> \<le> (\<bar>a\<bar> + \<bar>a - b\<bar> + 2) * u + (\<bar>a - b\<bar> + 1) * u" using e1 e2' by linarith
  also have "\<dots> = (2 * \<bar>a - b\<bar> + \<bar>a\<bar> + 3) * u" by (simp add: algebra_simps)
  finally show ?thesis by (simp add: fadd_def fsub_def d_def u_def)
qed

text \<open>
  C6, as amended. For doubles \<open>p0\<close>, \<open>p1\<close>, \<open>p2\<close> (of magnitude at most \<open>2^1000\<close>, so
  that no operation of the source overflows) the function returns, at \<open>t = 0\<close>, the
  rounded sum of \<open>p1\<close> and the rounded difference \<open>p0 - p1\<close>, and at \<open>t = 1\<close> the rounded
  sum of \<open>p1\<close> and the rounded difference \<open>p2 - p1\<close>. That is \<open>p0\<close> (or \<open>p2\<close>) up to the two
  roundings, within \<open>(2 |p0 - p1| + |p0| + 3) / 2^53\<close>, and exactly \<open>p0\<close> (or \<open>p2\<close>) when the
  difference is computed without rounding.
\<close>

theorem bezier_endpoints_rounded:
  assumes dbl: "isDouble p0" "isDouble p1" "isDouble p2"
    and range: "\<bar>p0\<bar> \<le> 2 ^ 1000" "\<bar>p1\<bar> \<le> 2 ^ 1000" "\<bar>p2\<bar> \<le> 2 ^ 1000"
  shows "bezier p0 p1 p2 0 = fadd p1 (fsub p0 p1) \<and>
         bezier p0 p1 p2 1 = fadd p1 (fsub p2 p1) \<and>
         \<bar>bezier p0 p1 p2 0 - p0\<bar> \<le> (2 * \<bar>p0 - p1\<bar> + \<bar>p0\<bar> + 3) / 2 ^ 53 \<and>
         \<bar>bezier p0 p1 p2 1 - p2\<bar> \<le> (2 * \<bar>p2 - p1\<bar> + \<bar>p2\<bar> + 3) / 2 ^ 53 \<and>
         (fsub p0 p1 = p0 - p1 \<longrightarrow> bezier p0 p1 p2 0 = p0) \<and>
         (fsub p2 p1 = p2 - p1 \<longrightarrow> bezier p0 p1 p2 1 = p2)"
proof -
  have p: "fl p0 = p0" "fl p1 = p1" "fl p2 = p2" using dbl by (simp_all add: isDouble_def)
  have a: "bezier p0 p1 p2 0 = fadd p1 (fsub p0 p1)" by (rule bezier_at_0)
  have b: "bezier p0 p1 p2 1 = fadd p1 (fsub p2 p1)" by (simp add: bezier_at_1 p)
  have c: "fsub p0 p1 = p0 - p1 \<longrightarrow> bezier p0 p1 p2 0 = p0"
    unfolding a by (simp add: fadd_def p)
  have d: "fsub p2 p1 = p2 - p1 \<longrightarrow> bezier p0 p1 p2 1 = p2"
    unfolding b by (simp add: fadd_def p)
  show ?thesis
    unfolding a b using round_trip_error [of p1 p0] round_trip_error [of p1 p2] c d
    unfolding a b by blast
qed

lemma tenth: "fl (3602879701896397 / 2 ^ 55 - 3152519739159347 / 2 ^ 52) = - (5404319552844595 / 2 ^ 53)"
proof -
  have "fl (3602879701896397 / 2 ^ 55 - 3152519739159347 / 2 ^ 52) =
      2 powi max (- 1 - 52) (- 1074) *
      of_int (roundHalfEven ((3602879701896397 / 2 ^ 55 - 3152519739159347 / 2 ^ 52) / 2 powi max (- 1 - 52) (- 1074)))"
    by (rule fl_eval) (simp_all add: power_int_minus)
  also have "\<dots> = - (5404319552844595 / 2 ^ 53)"
    by (simp add: power_int_minus roundHalfEven_def)
  finally show ?thesis .
qed

text \<open>
  C6 as stated fails. For the doubles that \<^verbatim>\<open>0.1\<close>, \<^verbatim>\<open>0.7\<close> and \<^verbatim>\<open>0.3\<close> denote, the
  function returns \<open>900719925474099 / 2^53\<close> at \<open>t = 0\<close> (printed
  \<^verbatim>\<open>0.09999999999999998\<close>), which is not \<open>p0\<close>.
\<close>

theorem bezier_endpoints_counterexample:
  "isDouble (3602879701896397 / 2 ^ 55) \<and> isDouble (3152519739159347 / 2 ^ 52) \<and>
   isDouble (5404319552844595 / 2 ^ 54) \<and>
   bezier (3602879701896397 / 2 ^ 55) (3152519739159347 / 2 ^ 52) (5404319552844595 / 2 ^ 54) 0
     = 900719925474099 / 2 ^ 53 \<and>
   bezier (3602879701896397 / 2 ^ 55) (3152519739159347 / 2 ^ 52) (5404319552844595 / 2 ^ 54) 0
     \<noteq> 3602879701896397 / 2 ^ 55"
proof -
  have d: "isDouble (3602879701896397 / 2 ^ 55)" "isDouble (3152519739159347 / 2 ^ 52)"
      "isDouble (5404319552844595 / 2 ^ 54)"
    using isDouble_dyadic [of 3602879701896397 55] isDouble_dyadic [of 3152519739159347 52]
      isDouble_dyadic [of 5404319552844595 54] by simp_all
  have "fl (3152519739159347 / 2 ^ 52 + - (5404319552844595 / 2 ^ 53)) = fl (900719925474099 / 2 ^ 53)"
    by simp
  also have "\<dots> = 900719925474099 / 2 ^ 53"
    using fl_dyadic [of 900719925474099 53] by simp
  finally have "bezier (3602879701896397 / 2 ^ 55) (3152519739159347 / 2 ^ 52) (5404319552844595 / 2 ^ 54) 0
     = 900719925474099 / 2 ^ 53"
    unfolding bezier_at_0 fadd_def fsub_def tenth .
  then show ?thesis using d by simp
qed

theorem bezier_endpoints_rounded_witness:
  "isDouble 1 \<and> isDouble 2 \<and> isDouble 4 \<and>
   \<bar>1::real\<bar> \<le> 2 ^ 1000 \<and> \<bar>2::real\<bar> \<le> 2 ^ 1000 \<and> \<bar>4::real\<bar> \<le> 2 ^ 1000 \<and>
   fsub 1 2 = 1 - 2 \<and> fsub 4 2 = 4 - 2 \<and>
   bezier 1 2 4 0 = 1 \<and> bezier 1 2 4 1 = 4"
  using bezier_endpoints_rounded [of 1 2 4] by (simp add: fsub_def fadd_def)

lemma minMaxBeforeRound_ends:
  "fst (minMaxBeforeRound p0 p1 p2) \<le> min p0 p2 \<and> max p0 p2 \<le> snd (minMaxBeforeRound p0 p1 p2)"
  by (auto simp: minMaxBeforeRound_def Let_def min_le_iff_disj le_max_iff_disj)

lemma quadraticCurveMinMax_proj:
  "fst (quadraticCurveMinMax p0 p1 p2) = Math_round (fst (minMaxBeforeRound p0 p1 p2))"
  "snd (quadraticCurveMinMax p0 p1 p2) = Math_round (snd (minMaxBeforeRound p0 p1 p2))"
  by (simp_all add: quadraticCurveMinMax_def split: prod.splits)

lemma collinear_test:
  assumes "isDouble p1" "isDouble p2" "p0 - 2 * p1 + p2 = 0"
  shows "fadd (fsub p0 (fmul 2 p1)) p2 = 0"
proof -
  have "fl (2 * p1) = 2 * p1" using isDouble_twice [OF assms(1)] by (simp add: isDouble_def)
  moreover have "p0 - 2 * p1 = - p2" using assms(3) by simp
  moreover have "fl (- p2) = - p2" using assms(2) by (simp add: isDouble_def fl_minus)
  ultimately show ?thesis by (simp add: fadd_def fsub_def fmul_def)
qed

lemma quadraticCurveMinMax_zero_test:
  "fadd (fsub p0 (fmul 2 p1)) p2 = 0 \<Longrightarrow>
   quadraticCurveMinMax p0 p1 p2 = (Math_round (min p0 p2), Math_round (max p0 p2))"
  by (simp add: quadraticCurveMinMax_def minMaxBeforeRound_def)

text \<open>
  C3, as amended. When the test of line 48 finds zero, and so whenever \<open>p1\<close> and \<open>p2\<close> are
  doubles with \<open>p0 - 2 p1 + p2 = 0\<close>, the function returns the two ends rounded:
  \<open>(Math_round (min p0 p2), Math_round (max p0 p2))\<close>.
\<close>

theorem quadraticCurveMinMax_collinear:
  "fadd (fsub p0 (fmul 2 p1)) p2 = 0 \<or> (isDouble p1 \<and> isDouble p2 \<and> p0 - 2 * p1 + p2 = 0) \<Longrightarrow>
   quadraticCurveMinMax p0 p1 p2 = (Math_round (min p0 p2), Math_round (max p0 p2))"
  using collinear_test [of p1 p2 p0] quadraticCurveMinMax_zero_test [of p0 p1 p2] by blast

lemma isDouble_three_halves: "isDouble (3 / 2)"
  using isDouble_dyadic [of 3 1] by simp

lemma isDouble_half: "isDouble (1 / 2)"
  using isDouble_dyadic [of 1 1] by simp

theorem quadraticCurveMinMax_collinear_witness:
  "isDouble (1 / 2) \<and> isDouble 1 \<and> isDouble (3 / 2) \<and> (1 / 2::real) - 2 * 1 + 3 / 2 = 0 \<and>
   quadraticCurveMinMax (1 / 2) 1 (3 / 2) = (1, 2)"
  using quadraticCurveMinMax_collinear [of "1 / 2" 1 "3 / 2"] isDouble_three_halves isDouble_half
  by (simp add: Math_round_def)

text \<open>
  C3 as stated fails: \<open>1/2, 1, 3/2\<close> are collinear, and the function returns \<open>(1, 2)\<close>, not
  \<open>(1/2, 3/2)\<close>.
\<close>

theorem quadraticCurveMinMax_collinear_counterexample:
  "isDouble (1 / 2) \<and> isDouble 1 \<and> isDouble (3 / 2) \<and> (1 / 2::real) - 2 * 1 + 3 / 2 = 0 \<and>
   quadraticCurveMinMax (1 / 2) 1 (3 / 2) \<noteq> (min (1 / 2) (3 / 2), max (1 / 2) (3 / 2))"
proof -
  have "fadd (fsub (1 / 2) (fmul 2 1)) (3 / 2) = 0"
    by (rule collinear_test) (simp_all add: isDouble_three_halves)
  then have "quadraticCurveMinMax (1 / 2) 1 (3 / 2) = (Math_round (min (1 / 2) (3 / 2)), Math_round (max (1 / 2) (3 / 2)))"
    by (rule quadraticCurveMinMax_zero_test)
  then show ?thesis using isDouble_three_halves isDouble_half by (simp add: Math_round_def)
qed

text \<open>
  C10. The pair \<open>(lo, hi)\<close> that \<open>quadraticCurveMinMax\<close> returns is a pair of integers with
  \<open>lo \<le> hi\<close>, \<open>lo \<le> Math_round (min p0 p2)\<close> and \<open>Math_round (max p0 p2) \<le> hi\<close>,
  whichever branch is taken.
\<close>

theorem quadraticCurveMinMax_ordered_integers:
  "fst (quadraticCurveMinMax p0 p1 p2) \<in> \<int> \<and> snd (quadraticCurveMinMax p0 p1 p2) \<in> \<int> \<and>
   fst (quadraticCurveMinMax p0 p1 p2) \<le> snd (quadraticCurveMinMax p0 p1 p2) \<and>
   fst (quadraticCurveMinMax p0 p1 p2) \<le> Math_round (min p0 p2) \<and>
   Math_round (max p0 p2) \<le> snd (quadraticCurveMinMax p0 p1 p2)"
proof -
  note e = minMaxBeforeRound_ends [of p0 p1 p2]
  have a: "fst (quadraticCurveMinMax p0 p1 p2) \<le> Math_round (min p0 p2)"
    unfolding quadraticCurveMinMax_proj using e by (simp add: Math_round_mono)
  have b: "Math_round (max p0 p2) \<le> snd (quadraticCurveMinMax p0 p1 p2)"
    unfolding quadraticCurveMinMax_proj using e by (simp add: Math_round_mono)
  have "Math_round (min p0 p2) \<le> Math_round (max p0 p2)"
    by (rule Math_round_mono) simp
  with a b show ?thesis by (simp add: quadraticCurveMinMax_proj Math_round_Ints)
qed

section \<open>Properties of the component\<close>

lemma clearIfSet_no_timer: "clearIfSet (st\<lparr>timer := None\<rparr>) = st\<lparr>timer := None\<rparr>"
  by (simp add: clearIfSet_def)

text \<open>
  The state after a pass with a window: line 73 has put \<^verbatim>\<open>null\<close> in \<^verbatim>\<open>this.timer\<close>, so
  the test of line 105 finds nothing to clear, and the pass either appends one timeout of
  200 or leaves the table as it was.
\<close>

lemma render_state:
  "snd (render props (Some w) st) =
     (if orDefault False (dynamicUpdate props) \<or>
         querySelector w (orDefault ''body'' (fromSelector props)) = None \<or>
         querySelector w (orDefault (orDefault ''body'' (fromSelector props)) (toSelector props)) = None
      then st\<lparr>timer := Some (nextHandle st), nextHandle := Suc (nextHandle st),
              pending := pending st @ [(nextHandle st, 200)]\<rparr>
      else st\<lparr>timer := None\<rparr>)"
  by (simp add: render_def Let_def setTimeout_def clearIfSet_no_timer split: option.splits)


lemma render_keeps_pending:
  "set (pending st) \<subseteq> set (pending (snd (render props window st)))"
proof (cases window)
  case None
  then show ?thesis by (simp add: render_def)
next
  case (Some w)
  then show ?thesis by (auto simp: render_state)
qed

lemma render_size:
  "render props (Some w) st = (Some jsx, st') \<Longrightarrow> s_size (settings jsx) = 30"
  by (auto simp: render_def Let_def split: option.splits if_splits)



text \<open>
  C5. When \<open>render\<close> draws, the anchors are the centres of the two rectangles, the X
  offset added, the Y offset subtracted and \<open>scrollY\<close> added, each step an operation on
  doubles, and the control point is their midpoint plus \<open>(middleX, - middleY)\<close>. The
  anchors are in document space as the specification has it: they are the conversion of
  the offset centres of the viewport, the vertical scroll folded in.
\<close>

theorem render_anchor_points:
  assumes "render props (Some w) st = (Some jsx, st')"
    and "querySelector w (orDefault ''body'' (fromSelector props)) = Some fe"
    and "querySelector w (orDefault (orDefault ''body'' (fromSelector props)) (toSelector props)) = Some te"
  shows "s_p0x (settings jsx) =
           fadd (fadd (rect_left (getBoundingClientRect fe))
                      (fdiv (rect_width (getBoundingClientRect fe)) 2))
                (orDefault 0 (fromOffsetX props)) \<and>
         s_p0y (settings jsx) =
           fadd (fsub (fadd (rect_top (getBoundingClientRect fe))
                            (fdiv (rect_height (getBoundingClientRect fe)) 2))
                      (orDefault 0 (fromOffsetY props)))
                (scrollY w) \<and>
         s_p2x (settings jsx) =
           fadd (fadd (rect_left (getBoundingClientRect te))
                      (fdiv (rect_width (getBoundingClientRect te)) 2))
                (orDefault 0 (toOffsetX props)) \<and>
         s_p2y (settings jsx) =
           fadd (fsub (fadd (rect_top (getBoundingClientRect te))
                            (fdiv (rect_height (getBoundingClientRect te)) 2))
                      (orDefault 0 (toOffsetY props)))
                (scrollY w) \<and>
         s_p1x (settings jsx) =
           fadd (fdiv (fadd (s_p0x (settings jsx)) (s_p2x (settings jsx))) 2)
                (orDefault 0 (middleX props)) \<and>
         s_p1y (settings jsx) =
           fsub (fdiv (fadd (s_p0y (settings jsx)) (s_p2y (settings jsx))) 2)
                (orDefault 0 (middleY props)) \<and>
         (s_p0x (settings jsx), s_p0y (settings jsx)) =
           spec_toDocument w
             (fadd (fadd (rect_left (getBoundingClientRect fe))
                         (fdiv (rect_width (getBoundingClientRect fe)) 2))
                   (orDefault 0 (fromOffsetX props)),
              fsub (fadd (rect_top (getBoundingClientRect fe))
                         (fdiv (rect_height (getBoundingClientRect fe)) 2))
                   (orDefault 0 (fromOffsetY props))) \<and>
         (s_p2x (settings jsx), s_p2y (settings jsx)) =
           spec_toDocument w
             (fadd (fadd (rect_left (getBoundingClientRect te))
                         (fdiv (rect_width (getBoundingClientRect te)) 2))
                   (orDefault 0 (toOffsetX props)),
              fsub (fadd (rect_top (getBoundingClientRect te))
                         (fdiv (rect_height (getBoundingClientRect te)) 2))
                   (orDefault 0 (toOffsetY props)))"
  using assms by (auto simp: render_def Let_def spec_toDocument_def split: if_splits)

theorem render_anchor_points_witness:
  "render twoAnchorProps (Some twoAnchorPage) initialState
     = (Some (jsxOf 100 100 200 100 300 100 8), initialState) \<and>
   querySelector twoAnchorPage ''#a'' = Some (boxElement 90 60 20 40) \<and>
   querySelector twoAnchorPage ''#b'' = Some (boxElement 280 70 40 20) \<and>
   s_p0x (settings (jsxOf 100 100 200 100 300 100 8)) = fadd (fadd 90 (fdiv 20 2)) 0 \<and>
   s_p0y (settings (jsxOf 100 100 200 100 300 100 8)) = fadd (fsub (fadd 60 (fdiv 40 2)) 0) 20 \<and>
   s_p2x (settings (jsxOf 100 100 200 100 300 100 8)) = fadd (fadd 280 (fdiv 40 2)) 0 \<and>
   s_p2y (settings (jsxOf 100 100 200 100 300 100 8)) = fadd (fsub (fadd 70 (fdiv 20 2)) 0) 20 \<and>
   s_p1x (settings (jsxOf 100 100 200 100 300 100 8)) = fadd (fdiv (fadd 100 300) 2) 0 \<and>
   s_p1y (settings (jsxOf 100 100 200 100 300 100 8)) = fsub (fdiv (fadd 100 100) 2) 0 \<and>
   spec_toDocument twoAnchorPage (100, 80) = (100, 100) \<and>
   spec_toDocument twoAnchorPage (300, 80) = (300, 100)"
proof -
  have r: "render twoAnchorProps (Some twoAnchorPage) initialState
      = (Some (jsxOf 100 100 200 100 300 100 8), initialState)"
    by (simp add: render_def Let_def twoAnchorProps_def defaultProps_def twoAnchorPage_def
        boxElement_def initialState_def jsxOf_def clearIfSet_def fadd_def fsub_def fdiv_def)
  have a: "querySelector twoAnchorPage (orDefault ''body'' (fromSelector twoAnchorProps))
      = Some (boxElement 90 60 20 40)"
    by (simp add: twoAnchorProps_def defaultProps_def twoAnchorPage_def)
  have b: "querySelector twoAnchorPage
        (orDefault (orDefault ''body'' (fromSelector twoAnchorProps)) (toSelector twoAnchorProps))
      = Some (boxElement 280 70 40 20)"
    by (simp add: twoAnchorProps_def defaultProps_def twoAnchorPage_def)
  show ?thesis
    using render_anchor_points [OF r a b] r
    by (simp add: twoAnchorProps_def defaultProps_def twoAnchorPage_def boxElement_def
        spec_toDocument_def jsxOf_def fadd_def fsub_def fdiv_def)
qed

text \<open>
  C2, on the code. Two passes in a row while the anchors are missing leave two timeouts
  pending: the second pass starts by overwriting \<^verbatim>\<open>this.timer\<close> with \<^verbatim>\<open>null\<close>, so the
  timeout of the first pass is not cleared before the next one is scheduled.
\<close>

theorem render_twice_two_pending:
  "snd (render defaultProps (Some emptyPage) initialState) =
     \<lparr>timer = Some 1, nextHandle = 2, pending = [(1, 200)]\<rparr> \<and>
   snd (render defaultProps (Some emptyPage) \<lparr>timer = Some 1, nextHandle = 2, pending = [(1, 200)]\<rparr>) =
     \<lparr>timer = Some 2, nextHandle = 3, pending = [(1, 200), (2, 200)]\<rparr>"
  by (simp add: render_state defaultProps_def emptyPage_def initialState_def)

text \<open>
  C7, on the code. A pass that finds no anchor schedules a timeout; the next pass finds both
  anchors, forgets the handle and schedules nothing; \<open>componentWillUnmount\<close> then has no
  handle to clear, and the timeout is still pending after the instance is torn down.
\<close>

theorem unmount_leaves_timer_pending:
  "snd (render defaultProps (Some emptyPage) initialState) =
     \<lparr>timer = Some 1, nextHandle = 2, pending = [(1, 200)]\<rparr> \<and>
   snd (render defaultProps (Some bodyPage) \<lparr>timer = Some 1, nextHandle = 2, pending = [(1, 200)]\<rparr>) =
     \<lparr>timer = None, nextHandle = 2, pending = [(1, 200)]\<rparr> \<and>
   componentWillUnmount \<lparr>timer = None, nextHandle = 2, pending = [(1, 200)]\<rparr> =
     \<lparr>timer = None, nextHandle = 2, pending = [(1, 200)]\<rparr>"
  by (simp add: render_state defaultProps_def emptyPage_def bodyPage_def initialState_def
      componentWillUnmount_def clearIfSet_def)

section \<open>Properties of the drawing\<close>

lemma rotateMatrix_add: "rotateMatrix b (rotateMatrix a m) = rotateMatrix (a + b) m"
  by (simp add: rotateMatrix_def cos_add sin_add algebra_simps)



lemma arrowHeadAt_result:
  "arrowHeadAt a sz x y ctx =
     ctx\<lparr>ctx_transform :=
           translateMatrix (- x) (- y)
             (rotateMatrix (fadd a 1 - 2 + fsub 1 a) (translateMatrix x y (ctx_transform ctx))),
         ctx_path :=
           [(rotateMatrix (fadd a 1) (translateMatrix x y (ctx_transform ctx)), MoveTo 0 sz),
            (rotateMatrix (fadd a 1) (translateMatrix x y (ctx_transform ctx)), LineTo 0 0),
            (rotateMatrix (fadd a 1 - 2) (translateMatrix x y (ctx_transform ctx)), LineTo 0 (- sz))],
         ctx_painted := ctx_painted ctx @
           [\<lparr>stroke_path =
               [(rotateMatrix (fadd a 1) (translateMatrix x y (ctx_transform ctx)), MoveTo 0 sz),
                (rotateMatrix (fadd a 1) (translateMatrix x y (ctx_transform ctx)), LineTo 0 0)],
             stroke_style = ctx_strokeStyle ctx, stroke_width = ctx_lineWidth ctx,
             stroke_join = ctx_lineJoin ctx, stroke_cap = ctx_lineCap ctx\<rparr>,
            \<lparr>stroke_path =
               [(rotateMatrix (fadd a 1) (translateMatrix x y (ctx_transform ctx)), MoveTo 0 sz),
                (rotateMatrix (fadd a 1) (translateMatrix x y (ctx_transform ctx)), LineTo 0 0),
                (rotateMatrix (fadd a 1 - 2) (translateMatrix x y (ctx_transform ctx)), LineTo 0 (- sz))],
             stroke_style = ctx_strokeStyle ctx, stroke_width = ctx_lineWidth ctx,
             stroke_join = ctx_lineJoin ctx, stroke_cap = ctx_lineCap ctx\<rparr>]\<rparr>"
proof -
  have r: "fadd a 1 + (fsub 1 a - 2) = fadd a 1 - 2 + fsub 1 a" by simp
  show ?thesis
    unfolding r [symmetric]
    by (simp add: arrowHeadAt_def Let_def translate_def rotate_ctx_def beginPath_def addToPath_def
        stroke_def rotateMatrix_add)
qed














lemma cos_one_ge_half: "1 / 2 \<le> cos (1::real)"
proof -
  have "cos (1::real) = cos (2 * (1 / 2))" by simp
  also have "\<dots> = 1 - 2 * (sin (1 / 2))\<^sup>2" by (rule cos_double_sin)
  finally have c: "cos (1::real) = 1 - 2 * (sin (1 / 2))\<^sup>2" .
  have "\<bar>sin ((1::real) / 2)\<bar> \<le> \<bar>1 / 2\<bar>" by (rule abs_sin_x_le_abs_x)
  then have "(sin ((1::real) / 2))\<^sup>2 \<le> (1 / 2)\<^sup>2" by (rule abs_le_square_iff [THEN iffD1])
  then have "(sin ((1::real) / 2))\<^sup>2 \<le> 1 / 4" by (simp add: power2_eq_square)
  then show ?thesis unfolding c by linarith
qed

lemma canvasRef_Some: "canvasRef jsx (Some cv) = Some (the (canvasRef jsx (Some cv)))"
  by (simp add: canvasRef_def Let_def)

text \<open>
  C4, on the code. A straight arrow of width 16 between anchors at \<open>(100, 100)\<close> and
  \<open>(300, 100)\<close>: the padding is \<open>30 - 16 = 14\<close>, the canvas is 228 by 28 at \<open>(86, 86)\<close>, and
  the two tips of the head, 30 from the end point \<open>(214, 14)\<close> of the canvas, are at
  \<open>y = 14 + 30 cos 1 > 28\<close> and \<open>y = 14 - 30 cos 1 < 0\<close>: below and above the canvas.
\<close>

theorem canvas_clips_arrow_head:
  "fst (render thickProps (Some twoAnchorPage) initialState)
     = Some (jsxOf 100 100 200 100 300 100 16) \<and>
   style_left (the (canvasRef (jsxOf 100 100 200 100 300 100 16) (Some blankCanvas))) = 86 \<and>
   style_top (the (canvasRef (jsxOf 100 100 200 100 300 100 16) (Some blankCanvas))) = 86 \<and>
   canvas_width (the (canvasRef (jsxOf 100 100 200 100 300 100 16) (Some blankCanvas))) = 228 \<and>
   canvas_height (the (canvasRef (jsxOf 100 100 200 100 300 100 16) (Some blankCanvas))) = 28 \<and>
   pathPoints (ctx_path (canvas_context
      (the (canvasRef (jsxOf 100 100 200 100 300 100 16) (Some blankCanvas))))) =
     [(214 - 30 * sin 1, 14 + 30 * cos 1), (214, 14), (214 - 30 * sin 1, 14 - 30 * cos 1)] \<and>
   (28::real) < 14 + 30 * cos 1 \<and> 14 - 30 * cos (1::real) < 0"
proof -
  let ?cv = "the (canvasRef (jsxOf 100 100 200 100 300 100 16) (Some blankCanvas))"
  have r: "fst (render thickProps (Some twoAnchorPage) initialState)
      = Some (jsxOf 100 100 200 100 300 100 16)"
    by (simp add: render_def Let_def thickProps_def twoAnchorProps_def defaultProps_def
        twoAnchorPage_def boxElement_def initialState_def jsxOf_def clearIfSet_def
        fadd_def fsub_def fdiv_def)
  have x: "quadraticCurveMinMax 100 200 300 = (100, 300)"
    by (simp add: quadraticCurveMinMax_def minMaxBeforeRound_def fadd_def fsub_def fmul_def
        Math_round_def)
  have y: "quadraticCurveMinMax 100 100 100 = (100, 100)"
    by (simp add: quadraticCurveMinMax_def minMaxBeforeRound_def fadd_def fsub_def fmul_def
        Math_round_def)
  have a: "Math_atan2 0 100 = 0" by (simp add: Math_atan2_def)
  have box: "style_left ?cv = 86" "style_top ?cv = 86" "canvas_width ?cv = 228"
      "canvas_height ?cv = 28"
    by (simp_all add: canvasRef_def Let_def jsxOf_def x y fadd_def fsub_def toCanvasSize_def)
  have pts: "pathPoints (ctx_path (canvas_context ?cv)) =
     [(214 - 30 * sin 1, 14 + 30 * cos 1), (214, 14), (214 - 30 * sin 1, 14 - 30 * cos 1)]"
    by (simp add: canvasRef_def Let_def jsxOf_def x y a arrowHeadAt_result pathPoints_def
        addToPath_def stroke_def beginPath_def defaultContext_def applyMatrix_def
        rotateMatrix_def translateMatrix_def identityMatrix_def fadd_def fsub_def)
  have c: "(28::real) < 14 + 30 * cos 1" "14 - 30 * cos (1::real) < 0"
    using cos_one_ge_half by linarith+
  show ?thesis using r box pts c by blast
qed

section \<open>Containment of the curve in its extent\<close>

lemma abs_prod_diff:
  fixes a b a0 b0 :: real
  shows "\<bar>a * b - a0 * b0\<bar> \<le> \<bar>a - a0\<bar> * \<bar>b\<bar> + \<bar>a0\<bar> * \<bar>b - b0\<bar>"
proof -
  have "a * b - a0 * b0 = (a - a0) * b + a0 * (b - b0)" by (simp add: algebra_simps)
  then have "\<bar>a * b - a0 * b0\<bar> \<le> \<bar>(a - a0) * b\<bar> + \<bar>a0 * (b - b0)\<bar>"
    using abs_triangle_ineq [of "(a - a0) * b" "a0 * (b - b0)"] by simp
  then show ?thesis by (simp add: abs_mult)
qed

lemma prod_err:
  fixes a b a0 b0 :: real
  assumes "\<bar>a - a0\<bar> \<le> da" "\<bar>b\<bar> \<le> B" "\<bar>a0\<bar> \<le> A" "\<bar>b - b0\<bar> \<le> db"
  shows "\<bar>a * b - a0 * b0\<bar> \<le> da * B + A * db"
proof -
  have "\<bar>a - a0\<bar> * \<bar>b\<bar> \<le> da * B"
    using assms(1,2) by (intro mult_mono) simp_all
  moreover have "\<bar>a0\<bar> * \<bar>b - b0\<bar> \<le> A * db"
    using assms(3,4) by (intro mult_mono) simp_all
  ultimately show ?thesis using abs_prod_diff [of a b a0 b0] by linarith
qed

lemma abs_prod_le:
  fixes a b :: real
  assumes "\<bar>a\<bar> \<le> A" "\<bar>b\<bar> \<le> B"
  shows "\<bar>a * b\<bar> \<le> A * B"
  unfolding abs_mult using assms by (intro mult_mono) simp_all

lemma fl_bound:
  assumes "\<bar>x\<bar> \<le> c"
  shows "\<bar>fl x - x\<bar> \<le> (c + 1) * (1 / 2 ^ 53)"
proof -
  have "(\<bar>x\<bar> + 1) / 2 ^ 53 \<le> (c + 1) / 2 ^ 53"
    using assms by (intro divide_right_mono) simp_all
  then show ?thesis using fl_error_unit [of x] by simp
qed

text \<open>The rounding error of one evaluation of the curve.\<close>

lemma bezier_error:
  assumes M: "\<bar>p0\<bar> \<le> M" "\<bar>p1\<bar> \<le> M" "\<bar>p2\<bar> \<le> M"
    and t: "0 \<le> t" "t \<le> 1"
  shows "\<bar>bezier p0 p1 p2 t - exactCurve p0 p1 p2 t\<bar> \<le> 52 * ((M + 1) * (1 / 2 ^ 53))"
proof -
  define u :: real where "u = 1 / 2 ^ 53"
  define E where "E = (M + 1) * u"
  have M0: "0 \<le> M" using M(1) by linarith
  have u0: "0 \<le> u" by (simp add: u_def)
  have u64: "64 * u \<le> 1" by (simp add: u_def)
  have E_eq: "E = M * u + u" by (simp add: E_def algebra_simps)
  have Mu0: "0 \<le> M * u" using M0 u0 by simp
  have E0: "0 \<le> E" using E_eq Mu0 u0 by linarith
  have Eu: "64 * (E * u) \<le> E"
    using mult_left_mono [OF u64 E0] by (simp add: algebra_simps)
  have Eu0: "0 \<le> E * u" using E0 u0 by simp
  define a where "a = fl (1 - t)"
  define a2 where "a2 = fl (a * a)"
  define e0 where "e0 = fl (p0 - p1)"
  define m1 where "m1 = fl (a2 * e0)"
  define b2 where "b2 = fl (t * t)"
  define e2 where "e2 = fl (p2 - p1)"
  define m2 where "m2 = fl (b2 * e2)"
  define s1 where "s1 = fl (p1 + m1)"
  define s2 where "s2 = fl (s1 + m2)"
  define X1 where "X1 = (1 - t) * (1 - t) * (p0 - p1)"
  define X2 where "X2 = t * t * (p2 - p1)"
  have bz: "bezier p0 p1 p2 t = s2"
    by (simp add: bezier_def fadd_def fsub_def fmul_def s2_def s1_def m2_def m1_def e2_def e0_def
        b2_def a2_def a_def)
  have ex: "exactCurve p0 p1 p2 t = p1 + X1 + X2"
    by (simp add: exactCurve_def X1_def X2_def)
  \<comment> \<open>the factor \<open>(1 - t)\<^sup>2\<close>\<close>
  have s01: "\<bar>1 - t\<bar> \<le> 1" using t by simp
  have a_err: "\<bar>a - (1 - t)\<bar> \<le> 2 * u"
    using fl_bound [OF s01] by (simp add: a_def u_def)
  have a_abs: "\<bar>a\<bar> \<le> 2" using a_err s01 u64 u0 by linarith
  have "\<bar>a * a - (1 - t) * (1 - t)\<bar> \<le> 2 * u * 2 + 1 * (2 * u)"
    by (rule prod_err [OF a_err a_abs s01 a_err])
  then have aa_err: "\<bar>a * a - (1 - t) * (1 - t)\<bar> \<le> 6 * u" by simp
  have aa_abs: "\<bar>a * a\<bar> \<le> 4" using abs_prod_le [OF a_abs a_abs] by simp
  have "\<bar>a2 - a * a\<bar> \<le> 5 * u" using fl_bound [OF aa_abs] by (simp add: a2_def u_def)
  then have a2_err: "\<bar>a2 - (1 - t) * (1 - t)\<bar> \<le> 11 * u" using aa_err by linarith
  have ss_abs: "\<bar>(1 - t) * (1 - t)\<bar> \<le> 1" using abs_prod_le [OF s01 s01] by simp
  have a2_abs: "\<bar>a2\<bar> \<le> 2" using a2_err ss_abs u64 u0 by linarith
  \<comment> \<open>the difference \<open>p0 - p1\<close>\<close>
  have d0_abs: "\<bar>p0 - p1\<bar> \<le> 2 * M" using M by linarith
  have "\<bar>e0 - (p0 - p1)\<bar> \<le> (2 * M + 1) * u" using fl_bound [OF d0_abs] by (simp add: e0_def u_def)
  moreover have "(2 * M + 1) * u = 2 * (M * u) + u" by (simp add: algebra_simps)
  ultimately have e0_err: "\<bar>e0 - (p0 - p1)\<bar> \<le> 2 * E" using E_eq u0 by linarith
  have e0_abs: "\<bar>e0\<bar> \<le> 2 * M + 2 * E" using e0_err d0_abs by linarith
  \<comment> \<open>the first product\<close>
  have "\<bar>a2 * e0 - (1 - t) * (1 - t) * (p0 - p1)\<bar> \<le> 11 * u * (2 * M + 2 * E) + 1 * (2 * E)"
    by (rule prod_err [OF a2_err e0_abs ss_abs e0_err])
  moreover have "11 * u * (2 * M + 2 * E) = 22 * (M * u) + 22 * (E * u)" by (simp add: algebra_simps)
  ultimately have p1_err: "\<bar>a2 * e0 - X1\<bar> \<le> 25 * E"
    unfolding X1_def using E_eq Eu u0 Mu0 by linarith
  have "\<bar>a2 * e0\<bar> \<le> 2 * (2 * M + 2 * E)" by (rule abs_prod_le [OF a2_abs e0_abs])
  then have p1_abs: "\<bar>a2 * e0\<bar> \<le> 4 * M + 4 * E" by simp
  have "\<bar>m1 - a2 * e0\<bar> \<le> (4 * M + 4 * E + 1) * u" using fl_bound [OF p1_abs] by (simp add: m1_def u_def)
  moreover have "(4 * M + 4 * E + 1) * u = 4 * (M * u) + 4 * (E * u) + u" by (simp add: algebra_simps)
  ultimately have "\<bar>m1 - a2 * e0\<bar> \<le> 5 * E" using E_eq Eu u0 Mu0 by linarith
  then have m1_err: "\<bar>m1 - X1\<bar> \<le> 30 * E" using p1_err by linarith
  have "\<bar>X1\<bar> \<le> 1 * (2 * M)" unfolding X1_def by (rule abs_prod_le [OF ss_abs d0_abs])
  then have X1_abs: "\<bar>X1\<bar> \<le> 2 * M" by simp
  have m1_abs: "\<bar>m1\<bar> \<le> 2 * M + 30 * E" using m1_err X1_abs by linarith
  \<comment> \<open>the factor \<open>t\<^sup>2\<close>\<close>
  have t01: "\<bar>t\<bar> \<le> 1" using t by simp
  have tt_abs: "\<bar>t * t\<bar> \<le> 1" using abs_prod_le [OF t01 t01] by simp
  have b2_err: "\<bar>b2 - t * t\<bar> \<le> 2 * u" using fl_bound [OF tt_abs] by (simp add: b2_def u_def)
  have b2_abs: "\<bar>b2\<bar> \<le> 2" using b2_err tt_abs u64 u0 by linarith
  \<comment> \<open>the difference \<open>p2 - p1\<close>\<close>
  have d2_abs: "\<bar>p2 - p1\<bar> \<le> 2 * M" using M by linarith
  have "\<bar>e2 - (p2 - p1)\<bar> \<le> (2 * M + 1) * u" using fl_bound [OF d2_abs] by (simp add: e2_def u_def)
  moreover have "(2 * M + 1) * u = 2 * (M * u) + u" by (simp add: algebra_simps)
  ultimately have e2_err: "\<bar>e2 - (p2 - p1)\<bar> \<le> 2 * E" using E_eq u0 by linarith
  have e2_abs: "\<bar>e2\<bar> \<le> 2 * M + 2 * E" using e2_err d2_abs by linarith
  \<comment> \<open>the second product\<close>
  have "\<bar>b2 * e2 - t * t * (p2 - p1)\<bar> \<le> 2 * u * (2 * M + 2 * E) + 1 * (2 * E)"
    by (rule prod_err [OF b2_err e2_abs tt_abs e2_err])
  moreover have "2 * u * (2 * M + 2 * E) = 4 * (M * u) + 4 * (E * u)" by (simp add: algebra_simps)
  ultimately have p2_err: "\<bar>b2 * e2 - X2\<bar> \<le> 7 * E"
    unfolding X2_def using E_eq Eu u0 Mu0 by linarith
  have "\<bar>b2 * e2\<bar> \<le> 2 * (2 * M + 2 * E)" by (rule abs_prod_le [OF b2_abs e2_abs])
  then have p2_abs: "\<bar>b2 * e2\<bar> \<le> 4 * M + 4 * E" by simp
  have "\<bar>m2 - b2 * e2\<bar> \<le> (4 * M + 4 * E + 1) * u" using fl_bound [OF p2_abs] by (simp add: m2_def u_def)
  moreover have "(4 * M + 4 * E + 1) * u = 4 * (M * u) + 4 * (E * u) + u" by (simp add: algebra_simps)
  ultimately have "\<bar>m2 - b2 * e2\<bar> \<le> 5 * E" using E_eq Eu u0 Mu0 by linarith
  then have m2_err: "\<bar>m2 - X2\<bar> \<le> 12 * E" using p2_err by linarith
  have "\<bar>X2\<bar> \<le> 1 * (2 * M)" unfolding X2_def by (rule abs_prod_le [OF tt_abs d2_abs])
  then have X2_abs: "\<bar>X2\<bar> \<le> 2 * M" by simp
  have m2_abs: "\<bar>m2\<bar> \<le> 2 * M + 12 * E" using m2_err X2_abs by linarith
  \<comment> \<open>the two sums\<close>
  have q1_abs: "\<bar>p1 + m1\<bar> \<le> 3 * M + 30 * E" using M(2) m1_abs by linarith
  have "\<bar>s1 - (p1 + m1)\<bar> \<le> (3 * M + 30 * E + 1) * u" using fl_bound [OF q1_abs] by (simp add: s1_def u_def)
  moreover have "(3 * M + 30 * E + 1) * u = 3 * (M * u) + 30 * (E * u) + u" by (simp add: algebra_simps)
  ultimately have "\<bar>s1 - (p1 + m1)\<bar> \<le> 4 * E" using E_eq Eu u0 Mu0 by linarith
  then have s1_err: "\<bar>s1 - (p1 + X1)\<bar> \<le> 34 * E" using m1_err by linarith
  have s1_abs: "\<bar>s1\<bar> \<le> 3 * M + 34 * E" using s1_err M(2) X1_abs by linarith
  have q2_abs: "\<bar>s1 + m2\<bar> \<le> 5 * M + 46 * E" using s1_abs m2_abs by linarith
  have "\<bar>s2 - (s1 + m2)\<bar> \<le> (5 * M + 46 * E + 1) * u" using fl_bound [OF q2_abs] by (simp add: s2_def u_def)
  moreover have "(5 * M + 46 * E + 1) * u = 5 * (M * u) + 46 * (E * u) + u" by (simp add: algebra_simps)
  ultimately have "\<bar>s2 - (s1 + m2)\<bar> \<le> 6 * E" using E_eq Eu u0 Mu0 by linarith
  then have "\<bar>s2 - (p1 + X1 + X2)\<bar> \<le> 52 * E" using s1_err m2_err by linarith
  then show ?thesis unfolding bz ex E_def u_def .
qed


text \<open>The curve in exact arithmetic, written from its vertex.\<close>

lemma exactCurve_chord:
  "exactCurve p0 p1 p2 t = (1 - t) * p0 + t * p2 - (p0 - 2 * p1 + p2) * (t * (1 - t))"
  by (simp add: exactCurve_def algebra_simps)

lemma exactCurve_vertex:
  "exactCurve p0 (p0 - s * d) (p0 + d - 2 * s * d) t =
     exactCurve p0 (p0 - s * d) (p0 + d - 2 * s * d) s + d * ((t - s) * (t - s))"
  by (simp add: exactCurve_def algebra_simps)

lemma exactCurve_start:
  "exactCurve p0 (p0 - s * d) (p0 + d - 2 * s * d) t = p0 + d * (t * (t - 2 * s))"
  by (simp add: exactCurve_def algebra_simps)

lemma exactCurve_end:
  "exactCurve p0 (p0 - s * d) (p0 + d - 2 * s * d) t =
     (p0 + d - 2 * s * d) + d * ((1 - t) * (2 * s - 1 - t))"
  by (simp add: exactCurve_def algebra_simps)

lemma control_by_vertex:
  fixes p0 p1 p2 :: real
  assumes "p0 - 2 * p1 + p2 \<noteq> 0"
  defines "d \<equiv> p0 - 2 * p1 + p2"
  defines "s \<equiv> (p0 - p1) / (p0 - 2 * p1 + p2)"
  shows "p0 - s * d = p1" and "p0 + d - 2 * s * d = p2"
proof -
  have sd: "s * d = p0 - p1" using assms by (simp add: s_def d_def)
  show "p0 - s * d = p1" using sd by simp
  show "p0 + d - 2 * s * d = p2" using sd by (simp add: d_def)
qed

lemma convex_upper:
  fixes a b t :: real
  assumes "0 \<le> t" "t \<le> 1"
  shows "(1 - t) * a + t * b \<le> max a b"
proof -
  have e1: "(1 - t) * a + t * b = a + t * (b - a)" by (simp add: algebra_simps)
  have e2: "(1 - t) * a + t * b = b + (1 - t) * (a - b)" by (simp add: algebra_simps)
  show ?thesis
  proof (cases "a \<le> b")
    case True
    then have "(1 - t) * (a - b) \<le> 0" using assms by (simp add: mult_nonneg_nonpos)
    then show ?thesis using True e2 by simp
  next
    case False
    then have "t * (b - a) \<le> 0" using assms by (simp add: mult_nonneg_nonpos)
    then show ?thesis using False e1 by simp
  qed
qed

text \<open>
  Over \<open>[0, 1]\<close> the exact curve stays below the larger end, unless it opens downwards
  with its vertex strictly inside; then it stays below the vertex, which is above each end
  by \<open>|d|\<close> times the squared distance to it.
\<close>

lemma exactCurve_upper:
  fixes p0 p1 p2 t :: real
  assumes t: "0 \<le> t" "t \<le> 1"
  defines "d \<equiv> p0 - 2 * p1 + p2"
  defines "s \<equiv> (p0 - p1) / (p0 - 2 * p1 + p2)"
  shows "exactCurve p0 p1 p2 t \<le> max p0 p2 \<or>
         (d < 0 \<and> 0 < s \<and> s < 1 \<and> exactCurve p0 p1 p2 t \<le> exactCurve p0 p1 p2 s \<and>
          exactCurve p0 p1 p2 s = p0 - d * (s * s) \<and>
          exactCurve p0 p1 p2 s = p2 - d * ((1 - s) * (1 - s)))"
proof -
  have tt: "0 \<le> t * (1 - t)" using t by simp
  have chord: "exactCurve p0 p1 p2 t = (1 - t) * p0 + t * p2 - d * (t * (1 - t))"
    unfolding d_def by (rule exactCurve_chord)
  show ?thesis
  proof (cases "0 \<le> d")
    case True
    have "0 \<le> d * (t * (1 - t))" using True tt by simp
    then have "exactCurve p0 p1 p2 t \<le> (1 - t) * p0 + t * p2" using chord by simp
    also have "\<dots> \<le> max p0 p2" using t by (rule convex_upper)
    finally show ?thesis by blast
  next
    case False
    then have neg: "d < 0" by simp
    then have d0: "p0 - 2 * p1 + p2 \<noteq> 0" by (simp add: d_def)
    have q: "p0 - s * d = p1" "p0 + d - 2 * s * d = p2"
      using control_by_vertex [OF d0] by (simp_all add: d_def s_def)
    have vert: "exactCurve p0 p1 p2 r = exactCurve p0 p1 p2 s + d * ((r - s) * (r - s))" for r
      using exactCurve_vertex [of p0 s d r] unfolding q .
    have start: "exactCurve p0 p1 p2 r = p0 + d * (r * (r - 2 * s))" for r
      using exactCurve_start [of p0 s d r] unfolding q .
    have endf: "exactCurve p0 p1 p2 r = p2 + d * ((1 - r) * (2 * s - 1 - r))" for r
      using exactCurve_end [of p0 s d r] unfolding q .
    consider "0 < s \<and> s < 1" | "s \<le> 0" | "1 \<le> s" by linarith
    then show ?thesis
    proof cases
      case 1
      have "0 \<le> (t - s) * (t - s)" by simp
      then have "d * ((t - s) * (t - s)) \<le> 0" using neg by (simp add: mult_nonpos_nonneg)
      then have a: "exactCurve p0 p1 p2 t \<le> exactCurve p0 p1 p2 s" using vert [of t] by simp
      have b: "exactCurve p0 p1 p2 s = p0 - d * (s * s)"
        using start [of s] by (simp add: algebra_simps)
      have c: "exactCurve p0 p1 p2 s = p2 - d * ((1 - s) * (1 - s))"
        using endf [of s] by (simp add: algebra_simps)
      show ?thesis using neg 1 a b c by blast
    next
      case 2
      have "0 \<le> t * (t - 2 * s)" using t 2 by simp
      then have "d * (t * (t - 2 * s)) \<le> 0" using neg by (simp add: mult_nonpos_nonneg)
      then have "exactCurve p0 p1 p2 t \<le> p0" using start [of t] by simp
      then have "exactCurve p0 p1 p2 t \<le> max p0 p2" by linarith
      then show ?thesis by blast
    next
      case 3
      have "0 \<le> (1 - t) * (2 * s - 1 - t)" using t 3 by simp
      then have "d * ((1 - t) * (2 * s - 1 - t)) \<le> 0" using neg by (simp add: mult_nonpos_nonneg)
      then have "exactCurve p0 p1 p2 t \<le> p2" using endf [of t] by simp
      then have "exactCurve p0 p1 p2 t \<le> max p0 p2" by linarith
      then show ?thesis by blast
    qed
  qed
qed


text \<open>The rounding error of the test value of line 48 and of the numerator of line 49.\<close>

lemma denominator_error:
  assumes M: "\<bar>p0\<bar> \<le> M" "\<bar>p1\<bar> \<le> M" "\<bar>p2\<bar> \<le> M"
  shows "\<bar>fadd (fsub p0 (fmul 2 p1)) p2 - (p0 - 2 * p1 + p2)\<bar> \<le> 11 * ((M + 1) * (1 / 2 ^ 53))"
proof -
  define u :: real where "u = 1 / 2 ^ 53"
  define E where "E = (M + 1) * u"
  have M0: "0 \<le> M" using M(1) by linarith
  have u0: "0 \<le> u" by (simp add: u_def)
  have u64: "64 * u \<le> 1" by (simp add: u_def)
  have E_eq: "E = M * u + u" by (simp add: E_def algebra_simps)
  have Mu0: "0 \<le> M * u" using M0 u0 by simp
  have E0: "0 \<le> E" using E_eq Mu0 u0 by linarith
  have Eu: "64 * (E * u) \<le> E"
    using mult_left_mono [OF u64 E0] by (simp add: algebra_simps)
  have Eu0: "0 \<le> E * u" using E0 u0 by simp
  define x1 where "x1 = fl (2 * p1)"
  define x2 where "x2 = fl (p0 - x1)"
  define x3 where "x3 = fl (x2 + p2)"
  have dh: "fadd (fsub p0 (fmul 2 p1)) p2 = x3"
    by (simp add: fadd_def fsub_def fmul_def x1_def x2_def x3_def)
  have a1: "\<bar>2 * p1\<bar> \<le> 2 * M" using M by linarith
  have "\<bar>x1 - 2 * p1\<bar> \<le> (2 * M + 1) * u" using fl_bound [OF a1] by (simp add: x1_def u_def)
  moreover have "(2 * M + 1) * u = 2 * (M * u) + u" by (simp add: algebra_simps)
  ultimately have x1_err: "\<bar>x1 - 2 * p1\<bar> \<le> 2 * E" using E_eq u0 by linarith
  have a2: "\<bar>p0 - x1\<bar> \<le> 3 * M + 2 * E" using x1_err a1 M(1) by linarith
  have "\<bar>x2 - (p0 - x1)\<bar> \<le> (3 * M + 2 * E + 1) * u" using fl_bound [OF a2] by (simp add: x2_def u_def)
  moreover have "(3 * M + 2 * E + 1) * u = 3 * (M * u) + 2 * (E * u) + u" by (simp add: algebra_simps)
  ultimately have "\<bar>x2 - (p0 - x1)\<bar> \<le> 4 * E" using E_eq Eu u0 Mu0 by linarith
  then have x2_err: "\<bar>x2 - (p0 - 2 * p1)\<bar> \<le> 6 * E" using x1_err by linarith
  have a3: "\<bar>x2 + p2\<bar> \<le> 4 * M + 6 * E" using x2_err M by linarith
  have "\<bar>x3 - (x2 + p2)\<bar> \<le> (4 * M + 6 * E + 1) * u" using fl_bound [OF a3] by (simp add: x3_def u_def)
  moreover have "(4 * M + 6 * E + 1) * u = 4 * (M * u) + 6 * (E * u) + u" by (simp add: algebra_simps)
  ultimately have "\<bar>x3 - (x2 + p2)\<bar> \<le> 5 * E" using E_eq Eu u0 Mu0 by linarith
  then have "\<bar>x3 - (p0 - 2 * p1 + p2)\<bar> \<le> 11 * E" using x2_err by linarith
  then show ?thesis unfolding dh E_def u_def .
qed

lemma numerator_error:
  assumes M: "\<bar>p0\<bar> \<le> M" "\<bar>p1\<bar> \<le> M"
  shows "\<bar>fsub p0 p1 - (p0 - p1)\<bar> \<le> 2 * ((M + 1) * (1 / 2 ^ 53))"
proof -
  have a: "\<bar>p0 - p1\<bar> \<le> 2 * M" using M by linarith
  have "(2 * M + 1) * (1 / 2 ^ 53) \<le> (2 * M + 2) * (1 / 2 ^ 53)"
    by (intro mult_right_mono) simp_all
  then show ?thesis using fl_bound [OF a] by (simp add: fsub_def)
qed

lemma snd_minMaxBeforeRound:
  "snd (minMaxBeforeRound p0 p1 p2) =
     (if fadd (fsub p0 (fmul 2 p1)) p2 \<noteq> 0 \<and>
         0 < fdiv (fsub p0 p1) (fadd (fsub p0 (fmul 2 p1)) p2) \<and>
         fdiv (fsub p0 p1) (fadd (fsub p0 (fmul 2 p1)) p2) < 1
      then max (max p0 p2)
             (bezier p0 p1 p2 (fdiv (fsub p0 p1) (fadd (fsub p0 (fmul 2 p1)) p2)))
      else max p0 p2)"
  by (simp add: minMaxBeforeRound_def Let_def)

text \<open>
  When the exact curve opens downwards with its vertex strictly inside, the upper bound that
  the code holds before rounding is above the vertex up to the rounding error.
\<close>

lemma vertex_upper:
  fixes p0 p1 p2 M :: real
  assumes M: "\<bar>p0\<bar> \<le> M" "\<bar>p1\<bar> \<le> M" "\<bar>p2\<bar> \<le> M"
    and neg: "p0 - 2 * p1 + p2 < 0"
    and s: "0 < (p0 - p1) / (p0 - 2 * p1 + p2)" "(p0 - p1) / (p0 - 2 * p1 + p2) < 1"
  shows "exactCurve p0 p1 p2 ((p0 - p1) / (p0 - 2 * p1 + p2))
           \<le> snd (minMaxBeforeRound p0 p1 p2) + 90 * ((M + 1) * (1 / 2 ^ 53))"
proof -
  define u :: real where "u = 1 / 2 ^ 53"
  define E where "E = (M + 1) * u"
  define d where "d = p0 - 2 * p1 + p2"
  define s where "s = (p0 - p1) / (p0 - 2 * p1 + p2)"
  define V where "V = exactCurve p0 p1 p2 s"
  define mx where "mx = snd (minMaxBeforeRound p0 p1 p2)"
  define Dh where "Dh = fadd (fsub p0 (fmul 2 p1)) p2"
  define Nh where "Nh = fsub p0 p1"
  define Th where "Th = fdiv Nh Dh"
  have M0: "0 \<le> M" using M(1) by linarith
  have u0: "0 < u" by (simp add: u_def)
  have E_eq: "E = M * u + u" by (simp add: E_def algebra_simps)
  have Mu0: "0 \<le> M * u" using M0 u0 by simp
  have E0: "0 < E" using E_eq Mu0 u0 by linarith
  have dneg: "d < 0" using neg by (simp add: d_def)
  have s0: "0 < s" and s1: "s < 1" using s by (simp_all add: s_def)
  have d0: "p0 - 2 * p1 + p2 \<noteq> 0" using neg by simp
  have q: "p0 - s * d = p1" "p0 + d - 2 * s * d = p2"
    using control_by_vertex [OF d0] by (simp_all add: d_def s_def)
  have vert: "exactCurve p0 p1 p2 r = V + d * ((r - s) * (r - s))" for r
    using exactCurve_vertex [of p0 s d r] unfolding q V_def .
  have "exactCurve p0 p1 p2 s = p0 + d * (s * (s - 2 * s))"
    using exactCurve_start [of p0 s d s] unfolding q .
  then have V0: "V = p0 + (- d) * (s * s)" by (simp add: V_def algebra_simps)
  have "exactCurve p0 p1 p2 s = p2 + d * ((1 - s) * (2 * s - 1 - s))"
    using exactCurve_end [of p0 s d s] unfolding q .
  then have V2: "V = p2 + (- d) * ((1 - s) * (1 - s))" by (simp add: V_def algebra_simps)
  have mm: "mx = (if Dh \<noteq> 0 \<and> 0 < Th \<and> Th < 1 then max (max p0 p2) (bezier p0 p1 p2 Th)
                  else max p0 p2)"
    unfolding mx_def Th_def Nh_def Dh_def by (rule snd_minMaxBeforeRound)
  have ends: "p0 \<le> mx" "p2 \<le> mx"
    using minMaxBeforeRound_ends [of p0 p1 p2] by (simp_all add: mx_def)
  have Dh_err: "\<bar>Dh - d\<bar> \<le> 11 * E"
    using denominator_error [OF M] by (simp add: Dh_def d_def E_def u_def)
  have Nh_err: "\<bar>Nh - (p0 - p1)\<bar> \<le> 2 * E"
    using numerator_error [OF M(1,2)] by (simp add: Nh_def E_def u_def)
  have sd: "s * d = p0 - p1" using d0 by (simp add: s_def d_def)
  have below: "(- d) * (w * w) \<le> (- d) * w" if "0 \<le> w" "w \<le> 1" for w
  proof -
    have "w * w \<le> w" using that by (simp add: mult_left_le)
    then show ?thesis using dneg by (intro mult_left_mono) simp_all
  qed
  have "V \<le> mx + 90 * E"
  proof (cases "- d \<le> 32 * E")
    case True
    have "(- d) * (s * s) \<le> (- d) * s" using s0 s1 by (intro below) simp_all
    moreover have "(- d) * s \<le> (- d) * 1" using s1 dneg by (intro mult_left_mono) simp_all
    ultimately have "V \<le> p0 + 32 * E" using V0 True by linarith
    then show ?thesis using ends E0 by linarith
  next
    case False
    then have big: "32 * E < - d" by simp
    have Dh_neg: "Dh < 0" using Dh_err big E0 by linarith
    have Dh_abs: "\<bar>Dh\<bar> = - Dh" using Dh_neg by simp
    have half: "- d \<le> 2 * \<bar>Dh\<bar>" using Dh_err big E0 Dh_abs by linarith
    define q where "q = Nh / Dh"
    have qD: "q * Dh = Nh" using Dh_neg by (simp add: q_def)
    have "(q - s) * Dh = (Nh - (p0 - p1)) - s * (Dh - d)"
      using qD sd by (simp add: algebra_simps)
    moreover have "\<bar>s * (Dh - d)\<bar> \<le> 1 * (11 * E)"
      using s0 s1 Dh_err by (intro abs_prod_le) simp_all
    ultimately have "\<bar>(q - s) * Dh\<bar> \<le> 13 * E" using Nh_err by linarith
    then have qs1: "\<bar>q - s\<bar> * \<bar>Dh\<bar> \<le> 13 * E" by (simp add: abs_mult)
    have "\<bar>q - s\<bar> * (- d) \<le> \<bar>q - s\<bar> * (2 * \<bar>Dh\<bar>)"
      using half by (intro mult_left_mono) simp_all
    then have qs2: "\<bar>q - s\<bar> * (- d) \<le> 26 * E" using qs1 by (simp add: algebra_simps)
    have qs3: "\<bar>q - s\<bar> < 1"
    proof (rule ccontr)
      assume "\<not> \<bar>q - s\<bar> < 1"
      then have "1 \<le> \<bar>q - s\<bar>" by simp
      then have "1 * (- d) \<le> \<bar>q - s\<bar> * (- d)" using dneg by (intro mult_right_mono) simp_all
      then show False using qs2 big E0 by linarith
    qed
    have q_abs: "\<bar>q\<bar> \<le> 2" using qs3 s0 s1 by linarith
    have Th_err: "\<bar>Th - q\<bar> \<le> 3 * u"
      using fl_bound [OF q_abs] by (simp add: Th_def fdiv_def q_def u_def)
    have d4: "- d \<le> 4 * M" using M unfolding d_def by linarith
    have "\<bar>Th - q\<bar> * (- d) \<le> (3 * u) * (4 * M)"
      using Th_err d4 dneg u0 by (intro mult_mono) simp_all
    then have tq: "\<bar>Th - q\<bar> * (- d) \<le> 12 * E" using E_eq u0 by (simp add: algebra_simps)
    have "\<bar>Th - s\<bar> \<le> \<bar>Th - q\<bar> + \<bar>q - s\<bar>" by linarith
    then have "\<bar>Th - s\<bar> * (- d) \<le> (\<bar>Th - q\<bar> + \<bar>q - s\<bar>) * (- d)"
      using dneg by (intro mult_right_mono) simp_all
    then have K: "(- d) * \<bar>Th - s\<bar> \<le> 38 * E" using tq qs2 by (simp add: algebra_simps)
    consider "0 < Th \<and> Th < 1" | "Th \<le> 0" | "1 \<le> Th" by linarith
    then show ?thesis
    proof cases
      case 1
      then have t01: "0 \<le> Th" "Th \<le> 1" by simp_all
      have "mx = max (max p0 p2) (bezier p0 p1 p2 Th)" using mm 1 Dh_neg by simp
      then have a: "bezier p0 p1 p2 Th \<le> mx" by simp
      have b: "\<bar>bezier p0 p1 p2 Th - exactCurve p0 p1 p2 Th\<bar> \<le> 52 * E"
        using bezier_error [OF M t01] by (simp add: E_def u_def)
      have w: "0 \<le> \<bar>Th - s\<bar>" "\<bar>Th - s\<bar> \<le> 1" using 1 s0 s1 by linarith+
      have "(Th - s) * (Th - s) = \<bar>Th - s\<bar> * \<bar>Th - s\<bar>" by simp
      then have "exactCurve p0 p1 p2 Th = V - (- d) * (\<bar>Th - s\<bar> * \<bar>Th - s\<bar>)"
        using vert [of Th] by simp
      moreover have "(- d) * (\<bar>Th - s\<bar> * \<bar>Th - s\<bar>) \<le> (- d) * \<bar>Th - s\<bar>" by (rule below [OF w])
      ultimately have "V \<le> exactCurve p0 p1 p2 Th + 38 * E" using K by linarith
      then show ?thesis using a b by linarith
    next
      case 2
      have "(- d) * (s * s) \<le> (- d) * s" using s0 s1 by (intro below) simp_all
      moreover have "(- d) * s \<le> (- d) * \<bar>Th - s\<bar>"
        using 2 s0 dneg by (intro mult_left_mono) simp_all
      ultimately have "V \<le> p0 + 38 * E" using V0 K by linarith
      then show ?thesis using ends E0 by linarith
    next
      case 3
      have "(- d) * ((1 - s) * (1 - s)) \<le> (- d) * (1 - s)" using s0 s1 by (intro below) simp_all
      moreover have "(- d) * (1 - s) \<le> (- d) * \<bar>Th - s\<bar>"
        using 3 s1 dneg by (intro mult_left_mono) simp_all
      ultimately have "V \<le> p2 + 38 * E" using V2 K by linarith
      then show ?thesis using ends E0 by linarith
    qed
  qed
  then show ?thesis unfolding V_def s_def mx_def E_def u_def .
qed

text \<open>The operations commute with the change of sign.\<close>

lemma fsub_minus: "fsub (- a) (- b) = - fsub a b"
proof -
  have "fl (- a - - b) = fl (- (a - b))" by simp
  then show ?thesis unfolding fsub_def fl_minus .
qed

lemma fadd_minus: "fadd (- a) (- b) = - fadd a b"
proof -
  have "fl (- a + - b) = fl (- (a + b))" by simp
  then show ?thesis unfolding fadd_def fl_minus .
qed

lemma fmul_minus: "fmul a (- b) = - fmul a b"
proof -
  have "fl (a * - b) = fl (- (a * b))" by simp
  then show ?thesis unfolding fmul_def fl_minus .
qed

lemma fdiv_minus: "fdiv (- a) (- b) = fdiv a b"
  by (simp add: fdiv_def)

lemma bezier_minus: "bezier (- p0) (- p1) (- p2) t = - bezier p0 p1 p2 t"
  unfolding bezier_def fsub_minus fmul_minus fadd_minus ..

lemma fst_minMaxBeforeRound:
  "fst (minMaxBeforeRound p0 p1 p2) =
     (if fadd (fsub p0 (fmul 2 p1)) p2 \<noteq> 0 \<and>
         0 < fdiv (fsub p0 p1) (fadd (fsub p0 (fmul 2 p1)) p2) \<and>
         fdiv (fsub p0 p1) (fadd (fsub p0 (fmul 2 p1)) p2) < 1
      then min (min p0 p2)
             (bezier p0 p1 p2 (fdiv (fsub p0 p1) (fadd (fsub p0 (fmul 2 p1)) p2)))
      else min p0 p2)"
  by (simp add: minMaxBeforeRound_def Let_def)

lemma minMaxBeforeRound_minus:
  "snd (minMaxBeforeRound (- p0) (- p1) (- p2)) = - fst (minMaxBeforeRound p0 p1 p2)"
proof -
  have m: "max (- a) (- b) = - min a b" for a b :: real by (simp add: minus_min_eq_max)
  show ?thesis
    unfolding snd_minMaxBeforeRound fst_minMaxBeforeRound fmul_minus fsub_minus fadd_minus
      fdiv_minus bezier_minus m neg_equal_0_iff_equal
    by simp
qed

text \<open>The bounds held before rounding, against the computed curve.\<close>

lemma minMaxBeforeRound_upper:
  assumes M: "\<bar>p0\<bar> \<le> M" "\<bar>p1\<bar> \<le> M" "\<bar>p2\<bar> \<le> M"
    and t: "0 \<le> t" "t \<le> 1"
  shows "bezier p0 p1 p2 t \<le> snd (minMaxBeforeRound p0 p1 p2) + 142 * ((M + 1) * (1 / 2 ^ 53))"
proof -
  define E where "E = (M + 1) * (1 / 2 ^ 53)"
  have M0: "0 \<le> M" using M(1) by linarith
  have E0: "0 \<le> E" using M0 by (simp add: E_def)
  have b: "\<bar>bezier p0 p1 p2 t - exactCurve p0 p1 p2 t\<bar> \<le> 52 * E"
    using bezier_error [OF M t] by (simp add: E_def)
  have "exactCurve p0 p1 p2 t \<le> snd (minMaxBeforeRound p0 p1 p2) + 90 * E"
    using exactCurve_upper [OF t, of p0 p1 p2]
  proof
    assume "exactCurve p0 p1 p2 t \<le> max p0 p2"
    then show ?thesis using minMaxBeforeRound_ends [of p0 p1 p2] E0 by linarith
  next
    assume a: "p0 - 2 * p1 + p2 < 0 \<and> 0 < (p0 - p1) / (p0 - 2 * p1 + p2) \<and>
      (p0 - p1) / (p0 - 2 * p1 + p2) < 1 \<and>
      exactCurve p0 p1 p2 t \<le> exactCurve p0 p1 p2 ((p0 - p1) / (p0 - 2 * p1 + p2)) \<and>
      exactCurve p0 p1 p2 ((p0 - p1) / (p0 - 2 * p1 + p2)) =
        p0 - (p0 - 2 * p1 + p2) * ((p0 - p1) / (p0 - 2 * p1 + p2) * ((p0 - p1) / (p0 - 2 * p1 + p2))) \<and>
      exactCurve p0 p1 p2 ((p0 - p1) / (p0 - 2 * p1 + p2)) =
        p2 - (p0 - 2 * p1 + p2) *
          ((1 - (p0 - p1) / (p0 - 2 * p1 + p2)) * (1 - (p0 - p1) / (p0 - 2 * p1 + p2)))"
    then have n: "p0 - 2 * p1 + p2 < 0" and s0: "0 < (p0 - p1) / (p0 - 2 * p1 + p2)"
      and s1: "(p0 - p1) / (p0 - 2 * p1 + p2) < 1"
      and le: "exactCurve p0 p1 p2 t \<le> exactCurve p0 p1 p2 ((p0 - p1) / (p0 - 2 * p1 + p2))"
      by blast+
    have "exactCurve p0 p1 p2 ((p0 - p1) / (p0 - 2 * p1 + p2))
        \<le> snd (minMaxBeforeRound p0 p1 p2) + 90 * E"
      using vertex_upper [OF M n s0 s1] by (simp add: E_def)
    then show ?thesis using le by linarith
  qed
  then show ?thesis using b unfolding E_def by linarith
qed

lemma minMaxBeforeRound_lower:
  assumes M: "\<bar>p0\<bar> \<le> M" "\<bar>p1\<bar> \<le> M" "\<bar>p2\<bar> \<le> M"
    and t: "0 \<le> t" "t \<le> 1"
  shows "fst (minMaxBeforeRound p0 p1 p2) - 142 * ((M + 1) * (1 / 2 ^ 53)) \<le> bezier p0 p1 p2 t"
proof -
  have "\<bar>- p0\<bar> \<le> M" "\<bar>- p1\<bar> \<le> M" "\<bar>- p2\<bar> \<le> M" using M by simp_all
  then have "bezier (- p0) (- p1) (- p2) t
      \<le> snd (minMaxBeforeRound (- p0) (- p1) (- p2)) + 142 * ((M + 1) * (1 / 2 ^ 53))"
    using t by (rule minMaxBeforeRound_upper)
  then show ?thesis unfolding bezier_minus minMaxBeforeRound_minus by linarith
qed

text \<open>
  C1, as amended. For \<open>t\<close> in \<open>[0, 1]\<close> and control values of magnitude at most \<open>M\<close>
  (and \<open>M\<close> at most \<open>2^1000\<close>, so that no operation of the source overflows), the value
  that \<open>bezier\<close> computes lies between the bounds that \<open>quadraticCurveMinMax\<close> holds
  before it rounds them, up to the rounding error \<open>142 (M + 1) / 2^53\<close> of the double
  arithmetic, and so within \<open>1/2 + (M + 1) / 2^45\<close> of the pair it returns.
\<close>

theorem quadraticCurveMinMax_contains_upto_rounding:
  assumes "0 \<le> t" "t \<le> 1"
    and "\<bar>p0\<bar> \<le> M" "\<bar>p1\<bar> \<le> M" "\<bar>p2\<bar> \<le> M" "M \<le> 2 ^ 1000"
  shows "fst (minMaxBeforeRound p0 p1 p2) - 142 * (M + 1) / 2 ^ 53 \<le> bezier p0 p1 p2 t \<and>
         bezier p0 p1 p2 t \<le> snd (minMaxBeforeRound p0 p1 p2) + 142 * (M + 1) / 2 ^ 53 \<and>
         fst (quadraticCurveMinMax p0 p1 p2) - 1 / 2 - (M + 1) / 2 ^ 45 \<le> bezier p0 p1 p2 t \<and>
         bezier p0 p1 p2 t < snd (quadraticCurveMinMax p0 p1 p2) + 1 / 2 + (M + 1) / 2 ^ 45"
proof -
  define E where "E = (M + 1) * (1 / 2 ^ 53)"
  have M0: "0 \<le> M" using assms(3) by linarith
  have E0: "0 \<le> E" using M0 by (simp add: E_def)
  have e1: "142 * (M + 1) / 2 ^ 53 = 142 * E" by (simp add: E_def)
  have e2: "(M + 1) / 2 ^ 45 = 256 * E" by (simp add: E_def)
  have lo: "fst (minMaxBeforeRound p0 p1 p2) - 142 * E \<le> bezier p0 p1 p2 t"
    using minMaxBeforeRound_lower [OF assms(3,4,5) assms(1,2)] by (simp add: E_def)
  have hi: "bezier p0 p1 p2 t \<le> snd (minMaxBeforeRound p0 p1 p2) + 142 * E"
    using minMaxBeforeRound_upper [OF assms(3,4,5) assms(1,2)] by (simp add: E_def)
  have "fst (quadraticCurveMinMax p0 p1 p2) \<le> fst (minMaxBeforeRound p0 p1 p2) + 1 / 2"
    unfolding quadraticCurveMinMax_proj by (rule Math_round_upper)
  moreover have "snd (minMaxBeforeRound p0 p1 p2) - 1 / 2 < snd (quadraticCurveMinMax p0 p1 p2)"
    unfolding quadraticCurveMinMax_proj by (rule Math_round_lower)
  ultimately show ?thesis unfolding e1 e2 using lo hi E0 by linarith
qed

lemma quarter: "fl (1 / 4) = 1 / 4" and half: "fl (1 / 2) = 1 / 2"
  using fl_dyadic [of 1 2] fl_dyadic [of 1 1] by simp_all

theorem quadraticCurveMinMax_contains_upto_rounding_witness:
  "(0::real) \<le> 1 / 2 \<and> (1 / 2::real) \<le> 1 \<and> \<bar>0::real\<bar> \<le> 100 \<and> \<bar>100::real\<bar> \<le> 100 \<and>
   (100::real) \<le> 2 ^ 1000 \<and>
   quadraticCurveMinMax 0 100 0 = (0, 50) \<and> bezier 0 100 0 (1 / 2) = 50 \<and>
   fst (minMaxBeforeRound 0 100 0) - 142 * (100 + 1) / 2 ^ 53 \<le> bezier 0 100 0 (1 / 2) \<and>
   bezier 0 100 0 (1 / 2) \<le> snd (minMaxBeforeRound 0 100 0) + 142 * (100 + 1) / 2 ^ 53 \<and>
   fst (quadraticCurveMinMax 0 100 0) - 1 / 2 - (100 + 1) / 2 ^ 45 \<le> bezier 0 100 0 (1 / 2) \<and>
   bezier 0 100 0 (1 / 2) < snd (quadraticCurveMinMax 0 100 0) + 1 / 2 + (100 + 1) / 2 ^ 45"
proof -
  have h: "(0::real) \<le> 1 / 2" "(1 / 2::real) \<le> 1" "\<bar>0::real\<bar> \<le> 100" "\<bar>100::real\<bar> \<le> 100"
    "(100::real) \<le> 2 ^ 1000"
    by simp_all
  have b: "bezier 0 100 0 (1 / 2) = 50"
    by (simp add: bezier_def fadd_def fsub_def fmul_def half quarter)
  have m: "quadraticCurveMinMax 0 100 0 = (0, 50)"
    by (simp add: quadraticCurveMinMax_def minMaxBeforeRound_def Let_def b fadd_def fsub_def
        fmul_def fdiv_def half Math_round_def)
  note c = quadraticCurveMinMax_contains_upto_rounding [OF h(1) h(2) h(3) h(4) h(3) h(5)]
  show ?thesis using h b m c by blast
qed

text \<open>
  C1 as stated fails: for \<open>p0 = p1 = p2 = 1/4\<close> the function returns \<open>(0, 0)\<close>, and the
  curve is at \<open>1/4\<close> for \<open>t = 0\<close>, above the upper bound.
\<close>

theorem quadraticCurveMinMax_contains_counterexample:
  "isDouble (1 / 4) \<and> (0::real) \<le> 0 \<and> (0::real) \<le> 1 \<and>
   quadraticCurveMinMax (1 / 4) (1 / 4) (1 / 4) = (0, 0) \<and>
   bezier (1 / 4) (1 / 4) (1 / 4) 0 = 1 / 4 \<and>
   \<not> (fst (quadraticCurveMinMax (1 / 4) (1 / 4) (1 / 4)) \<le> bezier (1 / 4) (1 / 4) (1 / 4) 0 \<and>
      bezier (1 / 4) (1 / 4) (1 / 4) 0 \<le> snd (quadraticCurveMinMax (1 / 4) (1 / 4) (1 / 4)))"
proof -
  have nq: "fl (- (1 / 4)) = - (1 / 4)" using fl_minus [of "1 / 4"] quarter by simp
  have d: "isDouble (1 / 4)" by (simp add: isDouble_def quarter)
  have m: "quadraticCurveMinMax (1 / 4) (1 / 4) (1 / 4) = (0, 0)"
    by (simp add: quadraticCurveMinMax_def minMaxBeforeRound_def fadd_def fsub_def fmul_def
        half nq Math_round_def)
  have b: "bezier (1 / 4) (1 / 4) (1 / 4) 0 = 1 / 4"
    by (simp add: bezier_def fadd_def fsub_def fmul_def quarter)
  show ?thesis unfolding m b using d by simp
qed

end
